theory Spec2Isabelle
  imports Complex_Main "HOL-Library.Word"
begin

unbundle bit_operations_syntax

section \<open>Python floats\<close>

text \<open>
  A Python \<^verbatim>\<open>float\<close> is an IEEE 754 binary64 value: not-a-number, an infinity, or a
  finite double, represented by the rational it denotes. The two zeros are one value
  \<open>Fin 0\<close>: they compare equal, and the code below never divides by a zero.
\<close>

datatype double = NaN | MInf | PInf | Fin rat

definition pow2 :: "int \<Rightarrow> rat" where
  "pow2 k = (if 0 \<le> k then 2 ^ nat k else 1 / 2 ^ nat (- k))"

fun bit_length :: "nat \<Rightarrow> nat" where
  "bit_length n = (if n = 0 then 0 else Suc (bit_length (n div 2)))"

declare bit_length.simps [simp del]

definition round_half_even :: "rat \<Rightarrow> int" where
  "round_half_even r =
     (let f = \<lfloor>r\<rfloor>; d = r - of_int f
      in if d < 1 / 2 then f
         else if 1 / 2 < d then f + 1
         else if even f then f else f + 1)"

text \<open>
  Rounding of an exact result to the nearest double, ties to even: the exponent \<open>e\<close> of
  \<open>x\<close> (with \<open>2 ^ e \<le> \<bar>x\<bar> < 2 ^ (e + 1)\<close>) is found from the bit lengths of numerator and
  denominator, the spacing of doubles there is \<open>2 ^ (e - 52)\<close> (and \<open>2 ^ (- 1074)\<close> in the
  subnormal range), and a rounded magnitude of \<open>2 ^ 1024\<close> or more overflows to an infinity.
  It is also the value of a decimal literal such as \<^verbatim>\<open>3.6\<close>.
\<close>

definition rnd :: "rat \<Rightarrow> double" where
  "rnd x =
     (if x = 0 then Fin 0
      else
        (let a = \<bar>x\<bar>;
             (p, q) = quotient_of a;
             k = int (bit_length (nat p)) - int (bit_length (nat q));
             e = (if pow2 k \<le> a then k else k - 1);
             quantum = pow2 (max e (- 1022) - 52);
             y = of_int (round_half_even (a / quantum)) * quantum
         in if pow2 1024 \<le> y then (if 0 < x then PInf else MInf)
            else Fin (if 0 < x then y else - y)))"

text \<open>The operators \<^verbatim>\<open>-\<close>, \<^verbatim>\<open>*\<close>, \<^verbatim>\<open><=\<close> and \<^verbatim>\<open>/\<close> on floats.\<close>

fun fsub :: "double \<Rightarrow> double \<Rightarrow> double" where
  "fsub NaN _ = NaN"
| "fsub _ NaN = NaN"
| "fsub PInf PInf = NaN"
| "fsub MInf MInf = NaN"
| "fsub PInf _ = PInf"
| "fsub MInf _ = MInf"
| "fsub (Fin a) PInf = MInf"
| "fsub (Fin a) MInf = PInf"
| "fsub (Fin a) (Fin b) = rnd (a - b)"

fun fmul :: "double \<Rightarrow> double \<Rightarrow> double" where
  "fmul NaN _ = NaN"
| "fmul _ NaN = NaN"
| "fmul PInf PInf = PInf"
| "fmul PInf MInf = MInf"
| "fmul MInf PInf = MInf"
| "fmul MInf MInf = PInf"
| "fmul PInf (Fin b) = (if b = 0 then NaN else if 0 < b then PInf else MInf)"
| "fmul MInf (Fin b) = (if b = 0 then NaN else if 0 < b then MInf else PInf)"
| "fmul (Fin a) PInf = (if a = 0 then NaN else if 0 < a then PInf else MInf)"
| "fmul (Fin a) MInf = (if a = 0 then NaN else if 0 < a then MInf else PInf)"
| "fmul (Fin a) (Fin b) = rnd (a * b)"

fun fle :: "double \<Rightarrow> double \<Rightarrow> bool" where
  "fle NaN _ = False"
| "fle _ NaN = False"
| "fle MInf _ = True"
| "fle _ PInf = True"
| "fle PInf _ = False"
| "fle _ MInf = False"
| "fle (Fin a) (Fin b) = (a \<le> b)"

text \<open>Division raises \<^verbatim>\<open>ZeroDivisionError\<close> (\<open>None\<close>) when the divisor is zero.\<close>

fun fdiv :: "double \<Rightarrow> double \<Rightarrow> double option" where
  "fdiv x (Fin b) =
     (if b = 0 then None
      else case x of
        NaN \<Rightarrow> Some NaN
      | PInf \<Rightarrow> Some (if 0 < b then PInf else MInf)
      | MInf \<Rightarrow> Some (if 0 < b then MInf else PInf)
      | Fin a \<Rightarrow> Some (rnd (a / b)))"
| "fdiv NaN _ = Some NaN"
| "fdiv _ NaN = Some NaN"
| "fdiv (Fin a) _ = Some (Fin 0)"
| "fdiv _ _ = Some NaN"

section \<open>F\_index.py: configuration and in-memory state\<close>

text \<open>
  The module-level configuration of \<^verbatim>\<open>F_index.py\<close> (read once from the process
  environment) together with the \<^verbatim>\<open>datetime\<close> library functions the module calls.
  A \<^verbatim>\<open>datetime\<close> produced by \<^verbatim>\<open>parse_iso8601\<close> is UTC with whole seconds, so it is
  represented by its POSIX epoch second (\<^verbatim>\<open>dt.timestamp()\<close> is that integer as a float).
  \<^verbatim>\<open>strptime\<close> is \<^verbatim>\<open>parse_iso8601\<close>: \<open>None\<close> where \<^verbatim>\<open>datetime.strptime\<close> raises.
  \<^verbatim>\<open>strftime\<close> is \<^verbatim>\<open>ref_ts.strftime("%Y-%m-%dT%H:%M:%SZ")\<close>.
  \<^verbatim>\<open>local_time\<close> is \<^verbatim>\<open>dt.astimezone(ZoneInfo("America/Bogota")).strftime(...)\<close>: \<open>None\<close>
  where it raises (\<^verbatim>\<open>OverflowError\<close> at the first hours of year 1).
\<close>

record env =
  F_THRESHOLD :: double
  ALERT_COOLDOWN :: int
  SYNC_WINDOW_S :: int
  DEFAULT_WIND_INPUT_UNIT :: string
  strptime :: "string \<Rightarrow> int option"
  strftime :: "int \<Rightarrow> string"
  local_time :: "int \<Rightarrow> string option"

text \<open>
  One invocation of \<^verbatim>\<open>send_sms_alert\<close>: the value and the local time in the message, the
  boolean it returned, and the two alert globals as they are at the moment of the call.
\<close>

record sms_call =
  sms_value :: double
  sms_local_time :: string
  sms_returned :: bool
  alert_epoch_at_call :: "int option"
  alert_ts_at_call :: "string option"

text \<open>
  The module globals. \<open>influx_calls\<close> and \<open>sms_calls\<close> are the traces of the two external
  calls: every invocation of \<^verbatim>\<open>influx.write_points\<close> (time, \<^verbatim>\<open>F_index\<close> field, and
  whether it returned rather than raised) and every invocation of \<^verbatim>\<open>send_sms_alert\<close>,
  oldest first.
\<close>

record state =
  latest_dht_t :: "double option"
  latest_dht_h :: "double option"
  latest_dht_ts :: "int option"
  latest_wind_u :: "double option"
  latest_wind_ts :: "int option"
  last_alert_epoch_data :: "int option"
  last_alert_ts_iso :: "string option"
  last_write_ts_iso :: "string option"
  influx_calls :: "(string \<times> double \<times> bool) list"
  sms_calls :: "sms_call list"

definition initial_state :: state where
  "initial_state =
     \<lparr>latest_dht_t = None, latest_dht_h = None, latest_dht_ts = None,
      latest_wind_u = None, latest_wind_ts = None,
      last_alert_epoch_data = None, last_alert_ts_iso = None,
      last_write_ts_iso = None, influx_calls = [], sms_calls = []\<rparr>"

definition seconds_between :: "int \<Rightarrow> int \<Rightarrow> int" where
  "seconds_between ts1 ts2 = \<bar>ts1 - ts2\<bar>"

section \<open>F\_index.py: deduplicated write\<close>

text \<open>
  \<^verbatim>\<open>write_f_to_influx\<close> returns nothing; the outcome names the way it was left: the early
  \<^verbatim>\<open>return\<close>, the normal end, or the exception of \<^verbatim>\<open>influx.write_points\<close> propagating.
  \<open>store_ok\<close> is what the external store does if it is called: return (\<open>True\<close>) or raise.
\<close>

datatype write_outcome = SkippedDuplicate | Written | StoreRaised

definition write_f_to_influx ::
  "bool \<Rightarrow> double \<Rightarrow> string \<Rightarrow> state \<Rightarrow> write_outcome \<times> state" where
  "write_f_to_influx store_ok f_value ts_iso st =
     (if last_write_ts_iso st = Some ts_iso then (SkippedDuplicate, st)
      else if store_ok then
        (let st1 = st\<lparr>influx_calls := influx_calls st @ [(ts_iso, f_value, True)]\<rparr>
         in (Written, st1\<lparr>last_write_ts_iso := Some ts_iso\<rparr>))
      else (StoreRaised, st\<lparr>influx_calls := influx_calls st @ [(ts_iso, f_value, False)]\<rparr>))"

section \<open>F\_index.py: alert decision\<close>

text \<open>
  \<^verbatim>\<open>maybe_send_alert\<close> returns nothing; the outcome names the branch taken (each one writes
  its own log line). \<open>RecordedThenRaised\<close> is the exception of the local-time formatting
  propagating, after the state was recorded and before \<^verbatim>\<open>send_sms_alert\<close> is reached.
\<close>

datatype alert_outcome =
  BelowThreshold | InvalidTimestamp | DuplicateTimestamp | NonMonotonic | Cooldown
  | Admitted | RecordedThenRaised

text \<open>
  The external call \<^verbatim>\<open>send_sms_alert(ALERT_PHONE, msg, MODEM_URL)\<close>, made in state \<open>st\<close>;
  \<open>sms_ok\<close> is the boolean it returns (it catches its own exceptions).
\<close>

definition send_sms_alert :: "bool \<Rightarrow> double \<Rightarrow> string \<Rightarrow> state \<Rightarrow> state" where
  "send_sms_alert sms_ok f_value ts_local st =
     st\<lparr>sms_calls := sms_calls st @
          [\<lparr>sms_value = f_value, sms_local_time = ts_local, sms_returned = sms_ok,
            alert_epoch_at_call = last_alert_epoch_data st,
            alert_ts_at_call = last_alert_ts_iso st\<rparr>]\<rparr>"

text \<open>The two assignments that record an alert (\<^verbatim>\<open>F_index.py\<close>, lines 197 and 198).\<close>

definition record_alert :: "int \<Rightarrow> string \<Rightarrow> state \<Rightarrow> state" where
  "record_alert ts_epoch ts_iso st =
     st\<lparr>last_alert_epoch_data := Some ts_epoch, last_alert_ts_iso := Some ts_iso\<rparr>"

text \<open>
  The block \<^verbatim>\<open>with alert_lock:\<close> of \<^verbatim>\<open>maybe_send_alert\<close>: the three checks and, when the
  event is allowed, the recording of both globals.
\<close>

definition with_alert_lock :: "env \<Rightarrow> int \<Rightarrow> string \<Rightarrow> state \<Rightarrow> alert_outcome \<times> state" where
  "with_alert_lock cfg ts_epoch ts_iso st =
     (if last_alert_ts_iso st \<noteq> None \<and> Some ts_iso = last_alert_ts_iso st
      then (DuplicateTimestamp, st)
      else
        (case (case last_alert_epoch_data st of
                 None \<Rightarrow> Admitted
               | Some prev \<Rightarrow>
                   (let delta = ts_epoch - prev
                    in if delta \<le> 0 then NonMonotonic
                       else if delta < ALERT_COOLDOWN cfg then Cooldown
                       else Admitted)) of
           Admitted \<Rightarrow>
             (Admitted, record_alert ts_epoch ts_iso st)
         | blocked \<Rightarrow> (blocked, st)))"

definition maybe_send_alert ::
  "env \<Rightarrow> bool \<Rightarrow> double \<Rightarrow> string \<Rightarrow> state \<Rightarrow> alert_outcome \<times> state" where
  "maybe_send_alert cfg sms_ok f_value ts_iso st =
     (if fle f_value (F_THRESHOLD cfg) then (BelowThreshold, st)
      else case strptime cfg ts_iso of
        None \<Rightarrow> (InvalidTimestamp, st)
      | Some ts_epoch \<Rightarrow>
          (case with_alert_lock cfg ts_epoch ts_iso st of
             (Admitted, st1) \<Rightarrow>
               (case local_time cfg ts_epoch of
                  None \<Rightarrow> (RecordedThenRaised, st1)
                | Some ts_local \<Rightarrow> (Admitted, send_sms_alert sms_ok f_value ts_local st1))
           | (blocked, st1) \<Rightarrow> (blocked, st1)))"

section \<open>F\_index.py: wind unit conversion\<close>

text \<open>
  The three \<^verbatim>\<open>str\<close> methods \<^verbatim>\<open>to_kmh\<close> chains, on ASCII strings: \<^verbatim>\<open>strip()\<close> removes
  leading and trailing whitespace (the ASCII characters for which \<^verbatim>\<open>str.isspace\<close> holds),
  \<^verbatim>\<open>lower()\<close> maps \<^verbatim>\<open>A-Z\<close> to \<^verbatim>\<open>a-z\<close>, \<^verbatim>\<open>replace(" ", "")\<close> deletes every space.
\<close>

definition py_isspace :: "char \<Rightarrow> bool" where
  "py_isspace c = ((of_char c :: nat) \<in> set [9, 10, 11, 12, 13, 28, 29, 30, 31, 32])"

definition py_strip :: "string \<Rightarrow> string" where
  "py_strip s = rev (dropWhile py_isspace (rev (dropWhile py_isspace s)))"

definition py_lower_char :: "char \<Rightarrow> char" where
  "py_lower_char c =
     (let n = (of_char c :: nat) in if 65 \<le> n \<and> n \<le> 90 then char_of (n + 32) else c)"

definition py_lower :: "string \<Rightarrow> string" where
  "py_lower s = map py_lower_char s"

definition py_remove_spaces :: "string \<Rightarrow> string" where
  "py_remove_spaces s = filter (\<lambda>c. c \<noteq> CHR '' '') s"

text \<open>
  The argument \<^verbatim>\<open>u_raw\<close>: a number, given by its value \<^verbatim>\<open>float(u_raw)\<close>, or any value on
  which \<^verbatim>\<open>float(u_raw)\<close> raises \<^verbatim>\<open>TypeError\<close> or \<^verbatim>\<open>ValueError\<close>. \<open>rnd (18 / 5)\<close> is the
  literal \<^verbatim>\<open>3.6\<close>. The argument \<^verbatim>\<open>unit\<close> is \<^verbatim>\<open>None\<close> or a string;
  \<^verbatim>\<open>unit or DEFAULT_WIND_INPUT_UNIT\<close> takes the default for \<^verbatim>\<open>None\<close> and for the empty string.
\<close>

datatype raw_value = Num double | NotNum

definition normalize_unit :: "string \<Rightarrow> string" where
  "normalize_unit s = py_remove_spaces (py_lower (py_strip s))"

definition unit_norm_of :: "env \<Rightarrow> string option \<Rightarrow> string" where
  "unit_norm_of cfg unit =
     normalize_unit
       (case unit of
          None \<Rightarrow> DEFAULT_WIND_INPUT_UNIT cfg
        | Some s \<Rightarrow> if s = [] then DEFAULT_WIND_INPUT_UNIT cfg else s)"

definition to_kmh :: "env \<Rightarrow> raw_value \<Rightarrow> string option \<Rightarrow> double option" where
  "to_kmh cfg u_raw unit =
     (case u_raw of
        NotNum \<Rightarrow> None
      | Num u \<Rightarrow>
          (let unit_norm = unit_norm_of cfg unit
           in if unit_norm \<in> set [''km/h'', ''kmh'', ''kph''] then Some u
              else if unit_norm \<in> set [''m/s'', ''ms'', ''mps''] then Some (fmul u (rnd (18 / 5)))
              else Some (fmul u (rnd (18 / 5)))))"

section \<open>F\_index.py: fusion, store and alert\<close>

text \<open>
  \<^verbatim>\<open>compute_and_store_if_ready\<close> returns nothing; the outcome names the branch taken and,
  where they were computed, the locals \<^verbatim>\<open>fmi\<close>, \<^verbatim>\<open>u_eff\<close>, \<^verbatim>\<open>f_val\<close> and \<^verbatim>\<open>ts_iso\<close>, how
  the write ended, and the alert outcome (\<open>None\<close> when \<^verbatim>\<open>maybe_send_alert\<close> was not called
  because the write raised into the \<^verbatim>\<open>except\<close> clause). \<open>DivisionRaised\<close> is the
  \<^verbatim>\<open>ZeroDivisionError\<close> of \<^verbatim>\<open>u_eff / fmi\<close> propagating.
\<close>

datatype fusion_outcome =
  NotReady | OutOfSync | FmiNonPositive double | DivisionRaised
  | Fused double double double string write_outcome "alert_outcome option"

definition compute_and_store_if_ready ::
  "env \<Rightarrow> bool \<Rightarrow> bool \<Rightarrow> state \<Rightarrow> fusion_outcome \<times> state" where
  "compute_and_store_if_ready cfg store_ok sms_ok st =
     (case (latest_dht_t st, latest_dht_h st, latest_wind_u st,
            latest_dht_ts st, latest_wind_ts st) of
        (Some t, Some h, Some u, Some ts_dht, Some ts_wind) \<Rightarrow>
          if seconds_between ts_dht ts_wind > SYNC_WINDOW_S cfg then (OutOfSync, st)
          else
            (let ref_ts = (if ts_dht \<ge> ts_wind then ts_dht else ts_wind);
                 ts_iso = strftime cfg ref_ts;
                 fmi = fsub (Fin 10) (fmul (Fin (1 / 4)) (fsub t h))
             in if fle fmi (Fin 0) then (FmiNonPositive fmi, st)
                else
                  (let u_eff = (if fle (Fin 1) u then u else Fin 1)
                   in case fdiv u_eff fmi of
                        None \<Rightarrow> (DivisionRaised, st)
                      | Some f_val \<Rightarrow>
                          (case write_f_to_influx store_ok f_val ts_iso st of
                             (StoreRaised, st1) \<Rightarrow>
                               (Fused fmi u_eff f_val ts_iso StoreRaised None, st1)
                           | (w, st1) \<Rightarrow>
                               (case maybe_send_alert cfg sms_ok f_val ts_iso st1 of
                                  (a, st2) \<Rightarrow>
                                    (Fused fmi u_eff f_val ts_iso w (Some a), st2)))))
      | _ \<Rightarrow> (NotReady, st))"

section \<open>wind\_reader.py: Modbus RTU frames\<close>

type_synonym byte = "8 word"

text \<open>
  \<^verbatim>\<open>struct.error\<close> (raised by \<^verbatim>\<open>struct.pack\<close> and \<^verbatim>\<open>struct.unpack\<close>) and the six
  \<^verbatim>\<open>ValueError\<close>s of \<^verbatim>\<open>parse_read_holding_registers\<close>, each with the values its message
  prints.
\<close>

datatype modbus_error =
  StructError
  | ShortResponse nat
  | CrcInvalid int int
  | UnexpectedSlave int
  | ModbusException int int
  | UnexpectedFunc int
  | ByteCountMismatch int int

fun is_ValueError :: "modbus_error \<Rightarrow> bool" where
  "is_ValueError StructError = False"
| "is_ValueError _ = True"

text \<open>The inner loop \<^verbatim>\<open>for _ in range(8)\<close> and the outer loop \<^verbatim>\<open>for b in data\<close>.\<close>

definition crc_shift :: "int \<Rightarrow> int" where
  "crc_shift crc = (if crc AND 0x0001 \<noteq> 0 then drop_bit 1 crc XOR 0xA001 else drop_bit 1 crc)"

fun crc_bits :: "nat \<Rightarrow> int \<Rightarrow> int" where
  "crc_bits 0 crc = crc"
| "crc_bits (Suc n) crc = crc_bits n (crc_shift crc)"

fun crc_bytes :: "int \<Rightarrow> byte list \<Rightarrow> int" where
  "crc_bytes crc [] = crc"
| "crc_bytes crc (b # data) = crc_bytes (crc_bits 8 (crc XOR uint b)) data"

definition modbus_crc16 :: "byte list \<Rightarrow> int" where
  "modbus_crc16 data = crc_bytes 0xFFFF data AND 0xFFFF"

text \<open>
  \<^verbatim>\<open>struct.pack\<close> of one field: \<^verbatim>\<open>B\<close>, \<^verbatim>\<open>>H\<close> and \<^verbatim>\<open><H\<close>; \<open>None\<close> where it raises
  \<^verbatim>\<open>struct.error\<close> because the value is out of the field's range.
\<close>

definition pack_B :: "int \<Rightarrow> byte list option" where
  "pack_B v = (if 0 \<le> v \<and> v \<le> 255 then Some [word_of_int v] else None)"

definition pack_H_be :: "int \<Rightarrow> byte list option" where
  "pack_H_be v =
     (if 0 \<le> v \<and> v \<le> 65535 then Some [word_of_int (v div 256), word_of_int (v mod 256)]
      else None)"

definition pack_H_le :: "int \<Rightarrow> byte list option" where
  "pack_H_le v =
     (if 0 \<le> v \<and> v \<le> 65535 then Some [word_of_int (v mod 256), word_of_int (v div 256)]
      else None)"

definition build_read_holding_registers :: "int \<Rightarrow> int \<Rightarrow> int \<Rightarrow> modbus_error + byte list" where
  "build_read_holding_registers slave start_addr reg_count =
     (case (pack_B slave, pack_H_be start_addr, pack_H_be reg_count) of
        (Some a, Some b, Some c) \<Rightarrow>
          (let pdu = a @ [0x03] @ b @ c;
               crc = modbus_crc16 pdu
           in case pack_H_le crc of
                Some t \<Rightarrow> Inr (pdu @ t)
              | None \<Rightarrow> Inl StructError)
      | _ \<Rightarrow> Inl StructError)"

text \<open>\<^verbatim>\<open>struct.unpack("<H", ...)\<close> of two bytes, and \<^verbatim>\<open>struct.unpack(">" + "H" * n, data)\<close>.\<close>

fun unpack_H_le :: "byte list \<Rightarrow> int option" where
  "unpack_H_le [lo, hi] = Some (uint lo + 256 * uint hi)"
| "unpack_H_le _ = None"

fun unpack_H_be_all :: "byte list \<Rightarrow> int list" where
  "unpack_H_be_all (hi # lo # data) = (256 * uint hi + uint lo) # unpack_H_be_all data"
| "unpack_H_be_all _ = []"

text \<open>The slices \<^verbatim>\<open>resp[:-2]\<close> and \<^verbatim>\<open>resp[-2:]\<close>.\<close>

definition but_last2 :: "byte list \<Rightarrow> byte list" where
  "but_last2 resp = take (length resp - 2) resp"

definition last2 :: "byte list \<Rightarrow> byte list" where
  "last2 resp = drop (length resp - 2) resp"

text \<open>
  The response parser. After the length check \<^verbatim>\<open>resp\<close> has at least five bytes, so
  \<^verbatim>\<open>payload = resp[:-2]\<close> has at least three and the reads \<^verbatim>\<open>payload[0..2]\<close> are in range.
  The slice \<^verbatim>\<open>payload[3:3 + byte_count]\<close> is shorter than \<^verbatim>\<open>byte_count\<close> when the payload
  ends early; \<^verbatim>\<open>struct.unpack\<close> then raises \<^verbatim>\<open>struct.error\<close>.
\<close>

definition parse_read_holding_registers ::
  "byte list \<Rightarrow> int \<Rightarrow> int \<Rightarrow> modbus_error + int list" where
  "parse_read_holding_registers resp slave reg_count =
     (if length resp < 5 then Inl (ShortResponse (length resp))
      else
        (let payload = but_last2 resp
         in case unpack_H_le (last2 resp) of
              None \<Rightarrow> Inl StructError
            | Some crc_recv \<Rightarrow>
                (let crc_calc = modbus_crc16 payload
                 in if crc_calc \<noteq> crc_recv then Inl (CrcInvalid crc_calc crc_recv)
                    else if uint (payload ! 0) \<noteq> slave
                      then Inl (UnexpectedSlave (uint (payload ! 0)))
                    else if uint (payload ! 1) \<noteq> 0x03 then
                      (if uint (payload ! 1) AND 0x80 \<noteq> 0 then
                         (let exc_code = (if length payload > 2 then uint (payload ! 2) else - 1)
                          in Inl (ModbusException (uint (payload ! 1)) exc_code))
                       else Inl (UnexpectedFunc (uint (payload ! 1))))
                    else
                      (let byte_count = uint (payload ! 2);
                           expected = reg_count * 2
                       in if byte_count \<noteq> expected
                          then Inl (ByteCountMismatch byte_count expected)
                          else
                            (let data = take (nat byte_count) (drop 3 payload)
                             in if int (length data) \<noteq> 2 * reg_count then Inl StructError
                                else Inr (unpack_H_be_all data))))))"

text \<open>Flipping bit \<open>i mod 8\<close> of byte \<open>i div 8\<close> of a frame.\<close>

definition flip_bit_at :: "nat \<Rightarrow> byte list \<Rightarrow> byte list" where
  "flip_bit_at i frame = frame[i div 8 := (frame ! (i div 8)) XOR push_bit (i mod 8) 1]"

section \<open>Runs and sample values\<close>

text \<open>
  A process lifetime of alert evaluations: the calls of \<^verbatim>\<open>maybe_send_alert\<close> in the order
  they take the lock, each with the answer of the SMS sender, its value and its timestamp.
\<close>

fun alert_run :: "env \<Rightarrow> (bool \<times> double \<times> string) list \<Rightarrow> state \<Rightarrow> state" where
  "alert_run cfg [] st = st"
| "alert_run cfg ((sms_ok, f_value, ts_iso) # calls) st =
     alert_run cfg calls (snd (maybe_send_alert cfg sms_ok f_value ts_iso st))"

text \<open>The order on the recorded epoch: unset (\<^verbatim>\<open>None\<close>) is below every epoch.\<close>

fun epoch_le :: "int option \<Rightarrow> int option \<Rightarrow> bool" where
  "epoch_le None _ = True"
| "epoch_le (Some a) None = False"
| "epoch_le (Some a) (Some b) = (a \<le> b)"

text \<open>
  A process lifetime of deduplicated writes: the calls of \<^verbatim>\<open>write_f_to_influx\<close> in order,
  each with the behaviour of the store, its value and its timestamp; and the timestamps of
  the store writes that succeeded, read off the trace.
\<close>

fun write_run :: "(bool \<times> double \<times> string) list \<Rightarrow> state \<Rightarrow> state" where
  "write_run [] st = st"
| "write_run ((store_ok, f_value, ts_iso) # calls) st =
     write_run calls (snd (write_f_to_influx store_ok f_value ts_iso st))"

definition written_timestamps :: "state \<Rightarrow> string list" where
  "written_timestamps st = map fst (filter (\<lambda>(ts, f, ok). ok) (influx_calls st))"

text \<open>
  The values of the three \<^verbatim>\<open>datetime\<close> functions on four instants (the first instant of
  year 1 parses and has an epoch, and its conversion to Bogota time raises), and the
  configuration the module takes when no environment variable is set.
\<close>

definition sample_strptime :: "string \<Rightarrow> int option" where
  "sample_strptime s =
     (if s = ''2024-01-01T00:00:00Z'' then Some 1704067200
      else if s = ''2024-01-01T00:00:05Z'' then Some 1704067205
      else if s = ''2024-01-01T00:01:00Z'' then Some 1704067260
      else if s = ''0001-01-01T00:00:00Z'' then Some (- 62135596800)
      else None)"

definition sample_strftime :: "int \<Rightarrow> string" where
  "sample_strftime e =
     (if e = 1704067200 then ''2024-01-01T00:00:00Z''
      else if e = 1704067205 then ''2024-01-01T00:00:05Z''
      else if e = 1704067260 then ''2024-01-01T00:01:00Z''
      else [])"

definition sample_local_time :: "int \<Rightarrow> string option" where
  "sample_local_time e =
     (if e = 1704067200 then Some ''2023-12-31 19:00:00''
      else if e = 1704067205 then Some ''2023-12-31 19:00:05''
      else if e = 1704067260 then Some ''2023-12-31 19:01:00''
      else None)"

definition default_env :: env where
  "default_env =
     \<lparr>F_THRESHOLD = Fin (3 / 2), ALERT_COOLDOWN = 60, SYNC_WINDOW_S = 0,
      DEFAULT_WIND_INPUT_UNIT = ''m/s'',
      strptime = sample_strptime, strftime = sample_strftime,
      local_time = sample_local_time\<rparr>"

text \<open>The dedup variable holds the timestamp of the latest successful store write.\<close>

definition dedup_inv :: "state \<Rightarrow> bool" where
  "dedup_inv st \<longleftrightarrow>
     distinct_adj (written_timestamps st) \<and>
     (written_timestamps st = [] \<or>
      last_write_ts_iso st = Some (last (written_timestamps st)))"

text \<open>
  The request frame in the specification's words:
  \<^verbatim>\<open>[slave_addr(1B)][function=0x03(1B)][start_reg(2B,BE)][count(2B,BE)][CRC16(2B,LE)]\<close>,
  the CRC computed over all preceding bytes.
\<close>

definition frame_layout :: "int \<Rightarrow> int \<Rightarrow> int \<Rightarrow> byte list" where
  "frame_layout slave start_addr reg_count =
     (let body = [word_of_int slave, 0x03,
                  word_of_int (start_addr div 256), word_of_int (start_addr mod 256),
                  word_of_int (reg_count div 256), word_of_int (reg_count mod 256)];
          crc = modbus_crc16 body
      in body @ [word_of_int (crc mod 256), word_of_int (crc div 256)])"

text \<open>
  The CRC check of the parser as a predicate: the CRC16 over \<^verbatim>\<open>resp[:-2]\<close> equals the
  little-endian value of \<^verbatim>\<open>resp[-2:]\<close>.
\<close>

definition crc_ok :: "byte list \<Rightarrow> bool" where
  "crc_ok resp \<longleftrightarrow> unpack_H_le (last2 resp) = Some (modbus_crc16 (but_last2 resp))"

section \<open>Rounding to a double\<close>

text \<open>
  The exponent that \<open>rnd\<close> computes from bit lengths is the exponent of its argument: the
  only \<open>e\<close> with \<open>2 ^ e \<le> \<bar>x\<bar> < 2 ^ (e + 1)\<close>. So \<open>rnd x\<close> is the multiple of the spacing
  \<open>2 ^ (max e (- 1022) - 52)\<close> nearest to \<open>x\<close>, ties to even, and an infinity from
  \<open>2 ^ 1024\<close> on.
\<close>

lemma pow2_powi: "pow2 k = 2 powi k"
  by (simp add: pow2_def power_int_def inverse_eq_divide power_one_over)

lemma pow2_pos: "0 < pow2 k"
  by (simp add: pow2_def)

lemma pow2_mono: "i \<le> j \<Longrightarrow> pow2 i \<le> pow2 j"
  unfolding pow2_powi by (rule power_int_increasing) simp_all

lemma pow2_diff: "pow2 (int m - int n) = 2 ^ m / 2 ^ n"
  by (simp add: pow2_powi power_int_diff)

lemma pow2_Suc: "pow2 (k + 1) = 2 * pow2 k"
  by (simp add: pow2_powi power_int_add)

lemma pow2_pred: "2 * pow2 (k - 1) = pow2 k"
  using pow2_Suc [of "k - 1"] by simp

lemma bit_length_bounds:
  "n < 2 ^ bit_length n \<and> (n \<noteq> 0 \<longrightarrow> 2 ^ bit_length n \<le> 2 * n)"
proof (induction n rule: bit_length.induct)
  case (1 n)
  show ?case
  proof (cases "n = 0")
    case True
    then show ?thesis by (simp add: bit_length.simps)
  next
    case False
    then have bl: "bit_length n = Suc (bit_length (n div 2))"
      by (subst bit_length.simps) simp
    from 1 False have ih: "n div 2 < 2 ^ bit_length (n div 2)"
      and ih2: "n div 2 \<noteq> 0 \<longrightarrow> 2 ^ bit_length (n div 2) \<le> 2 * (n div 2)"
      by simp_all
    have up: "n < 2 ^ bit_length n"
      using ih by (simp add: bl)
    have lo: "2 ^ bit_length n \<le> 2 * n"
    proof (cases "n div 2 = 0")
      case True
      with False have "n = 1" by linarith
      then show ?thesis by (simp add: bl bit_length.simps)
    next
      case nz: False
      with ih2 have "2 ^ bit_length (n div 2) \<le> 2 * (n div 2)" by simp
      then show ?thesis by (simp add: bl)
    qed
    from up lo show ?thesis by simp
  qed
qed

lemma exponent_unique:
  assumes "pow2 e \<le> a" "a < pow2 (e + 1)" "pow2 e' \<le> a" "a < pow2 (e' + 1)"
  shows "e = e'"
proof (rule ccontr)
  assume "e \<noteq> e'"
  then consider "e + 1 \<le> e'" | "e' + 1 \<le> e" by linarith
  then show False
  proof cases
    case 1
    from pow2_mono [OF 1] assms show False by linarith
  next
    case 2
    from pow2_mono [OF 2] assms show False by linarith
  qed
qed

lemma exponent_found:
  assumes "0 < a" and q: "quotient_of a = (p, q)"
  defines "k \<equiv> int (bit_length (nat p)) - int (bit_length (nat q))"
  shows "pow2 (k - 1) \<le> a \<and> a < pow2 (k + 1)"
proof -
  have qpos: "0 < q" using quotient_of_denom_pos [OF q] .
  have a: "a = of_int p / of_int q" using quotient_of_div [OF q] .
  with \<open>0 < a\<close> qpos have ppos: "0 < p"
    by (simp add: zero_less_divide_iff)
  define P Q where "P = nat p" and "Q = nat q"
  have Ppos: "0 < P" and Qpos: "0 < Q"
    using ppos qpos by (simp_all add: P_def Q_def)
  have aPQ: "a = of_nat P / of_nat Q"
    using ppos qpos by (simp add: a P_def Q_def)
  define X Y :: rat where "X = 2 ^ bit_length P" and "Y = 2 ^ bit_length Q"
  from bit_length_bounds [of P] Ppos
  have "P < 2 ^ bit_length P" and "2 ^ bit_length P \<le> 2 * P" by simp_all
  then have "(of_nat P :: rat) < of_nat (2 ^ bit_length P)"
    and "(of_nat (2 ^ bit_length P) :: rat) \<le> of_nat (2 * P)"
    by (simp_all only: of_nat_less_iff of_nat_le_iff)
  then have rP1: "of_nat P < X" and rP2: "X \<le> 2 * of_nat P"
    by (simp_all add: X_def)
  from bit_length_bounds [of Q] Qpos
  have "Q < 2 ^ bit_length Q" and "2 ^ bit_length Q \<le> 2 * Q" by simp_all
  then have "(of_nat Q :: rat) < of_nat (2 ^ bit_length Q)"
    and "(of_nat (2 ^ bit_length Q) :: rat) \<le> of_nat (2 * Q)"
    by (simp_all only: of_nat_less_iff of_nat_le_iff)
  then have rQ1: "of_nat Q < Y" and rQ2: "Y \<le> 2 * of_nat Q"
    by (simp_all add: Y_def)
  have rQpos: "(0 :: rat) < of_nat Q" and rPpos: "(0 :: rat) < of_nat P"
    using Ppos Qpos by simp_all
  have Ypos: "0 < Y" by (simp add: Y_def)
  have k: "pow2 k = X / Y"
    unfolding k_def P_def [symmetric] Q_def [symmetric] X_def Y_def by (rule pow2_diff)
  have "pow2 k \<le> 2 * of_nat P / Y"
    unfolding k using rP2 Ypos by (simp add: divide_right_mono)
  also have "2 * of_nat P / Y \<le> 2 * of_nat P / of_nat Q"
    using rQ1 rQpos rPpos by (intro divide_left_mono) simp_all
  finally have "pow2 k \<le> 2 * a" by (simp add: aPQ)
  then have lo: "pow2 (k - 1) \<le> a"
    using pow2_pred [of k] by simp
  have "a < X / of_nat Q"
    unfolding aPQ using rP1 rQpos by (simp add: divide_strict_right_mono)
  also have "X / of_nat Q \<le> X / (Y / 2)"
    using rQ2 Ypos rQpos by (intro divide_left_mono) (simp_all add: X_def)
  also have "X / (Y / 2) = 2 * pow2 k"
    by (simp add: k)
  finally have hi: "a < pow2 (k + 1)" by (simp add: pow2_Suc)
  from lo hi show ?thesis ..
qed

lemma rnd_eval:
  assumes nz: "x \<noteq> 0" and lo: "pow2 e \<le> \<bar>x\<bar>" and hi: "\<bar>x\<bar> < pow2 (e + 1)"
  shows "rnd x =
     (let quantum = pow2 (max e (- 1022) - 52);
          y = of_int (round_half_even (\<bar>x\<bar> / quantum)) * quantum
      in if pow2 1024 \<le> y then (if 0 < x then PInf else MInf)
         else Fin (if 0 < x then y else - y))"
proof -
  obtain p q where q: "quotient_of \<bar>x\<bar> = (p, q)"
    by (cases "quotient_of \<bar>x\<bar>")
  define k where "k = int (bit_length (nat p)) - int (bit_length (nat q))"
  have pos: "0 < \<bar>x\<bar>" using nz by simp
  from exponent_found [OF pos q]
  have b1: "pow2 (k - 1) \<le> \<bar>x\<bar>" and b2: "\<bar>x\<bar> < pow2 (k + 1)"
    by (simp_all add: k_def)
  have e: "(if pow2 k \<le> \<bar>x\<bar> then k else k - 1) = e"
  proof (cases "pow2 k \<le> \<bar>x\<bar>")
    case True
    from exponent_unique [OF True b2 lo hi] True show ?thesis by simp
  next
    case False
    then have "\<bar>x\<bar> < pow2 (k - 1 + 1)" by simp
    from exponent_unique [OF b1 this lo hi] False show ?thesis by simp
  qed
  have "rnd x =
     (let quantum = pow2 (max (if pow2 k \<le> \<bar>x\<bar> then k else k - 1) (- 1022) - 52);
          y = of_int (round_half_even (\<bar>x\<bar> / quantum)) * quantum
      in if pow2 1024 \<le> y then (if 0 < x then PInf else MInf)
         else Fin (if 0 < x then y else - y))"
    unfolding rnd_def Let_def q prod.case k_def [symmetric] using nz by simp
  then show ?thesis
    unfolding e .
qed

lemma floor_rat_numeral: "\<lfloor>(numeral a :: rat) / numeral b\<rfloor> = numeral a div numeral b"
  by (metis floor_divide_of_int_eq of_int_numeral)

lemma rnd_1_6: "rnd (8 / 5) = Fin (3602879701896397 / 2251799813685248)"
  by (simp add: rnd_eval [of _ 0] pow2_def round_half_even_def Let_def floor_rat_numeral)
lemma rnd_1_44: "rnd (36 / 25) = Fin (3242591731706757 / 2251799813685248)"
  by (simp add: rnd_eval [of _ 0] pow2_def round_half_even_def Let_def floor_rat_numeral)
lemma rnd_3_6: "rnd (18 / 5) = Fin (8106479329266893 / 2251799813685248)"
  by (simp add: rnd_eval [of _ 1] pow2_def round_half_even_def Let_def floor_rat_numeral)

text \<open>
  The float arithmetic of the scenarios below. The doubles written \<^verbatim>\<open>40.3\<close> and \<^verbatim>\<open>0.3\<close>
  differ by a little more than 40, and their float difference is exactly 40.
\<close>

lemma rnd_m10: "rnd (- 10) = Fin (- 10)"
  by (simp add: rnd_eval [of _ 3] pow2_def round_half_even_def Let_def floor_rat_numeral)
lemma rnd_m5_2: "rnd (- (5 / 2)) = Fin (- (5 / 2))"
  by (simp add: rnd_eval [of _ 1] pow2_def round_half_even_def Let_def floor_rat_numeral)
lemma rnd_25_2: "rnd (25 / 2) = Fin (25 / 2)"
  by (simp add: rnd_eval [of _ 3] pow2_def round_half_even_def Let_def floor_rat_numeral)
lemma rnd_40_3: "rnd (403 / 10) = Fin (2835860390359859 / 70368744177664)"
  by (simp add: rnd_eval [of _ 5] pow2_def round_half_even_def Let_def floor_rat_numeral)
lemma rnd_0_3: "rnd (3 / 10) = Fin (5404319552844595 / 18014398509481984)"
  by (simp add: rnd_eval [of _ "- 2"] pow2_def round_half_even_def Let_def floor_rat_numeral)
lemma rnd_40: "rnd 40 = Fin 40"
  by (simp add: rnd_eval [of _ 5] pow2_def round_half_even_def Let_def floor_rat_numeral)
lemma rnd_10: "rnd 10 = Fin 10"
  by (simp add: rnd_eval [of _ 3] pow2_def round_half_even_def Let_def floor_rat_numeral)

lemma fmi_30_40: "fsub (Fin 10) (fmul (Fin (1 / 4)) (fsub (Fin 30) (Fin 40))) = Fin (25 / 2)"
  by (simp add: rnd_m10 rnd_m5_2 rnd_25_2)

lemma f_18: "fdiv (Fin 18) (Fin (25 / 2)) = Some (rnd (36 / 25))"
  by simp

lemma f_20: "fdiv (Fin 20) (Fin (25 / 2)) = Some (rnd (8 / 5))"
  by simp

lemma rnd_0: "rnd 0 = Fin 0"
  by (simp add: rnd_def)

lemma fsub_40_3: "fsub (rnd (403 / 10)) (rnd (3 / 10)) = Fin 40"
  by (simp add: rnd_40_3 rnd_0_3)
    (simp add: rnd_eval [of _ 5] pow2_def round_half_even_def Let_def floor_rat_numeral)

lemma fmi_40_3:
  "fsub (Fin 10) (fmul (Fin (1 / 4)) (fsub (rnd (403 / 10)) (rnd (3 / 10)))) = Fin 0"
  by (simp add: fsub_40_3 rnd_10 rnd_0)

lemma fdiv_defined: "\<not> fle fmi (Fin 0) \<Longrightarrow> \<exists>f_val. fdiv x fmi = Some f_val"
  by (cases fmi; cases x) auto

lemma fmul_5_3_6: "fmul (Fin 5) (rnd (18 / 5)) = Fin 18"
  by (simp add: rnd_3_6)
    (simp add: rnd_eval [of _ 4] pow2_def round_half_even_def Let_def floor_rat_numeral)

lemma fmul_10_3_6: "fmul (Fin 10) (rnd (18 / 5)) = Fin 36"
  by (simp add: rnd_3_6)
    (simp add: rnd_eval [of _ 5] pow2_def round_half_even_def Let_def floor_rat_numeral)

section \<open>Alert decision: transitions, cooldown and monotonicity\<close>

text \<open>
  One evaluation either changes nothing, or the event is allowed: then the value is not at
  most the threshold, the timestamp parses, the event is strictly newer than the recorded
  one by at least the cooldown, and both alert globals are recorded; the SMS call is made
  on the recorded state, unless the formatting of the local time raises first.
\<close>

lemma maybe_send_alert_step:
  assumes "maybe_send_alert cfg sms_ok f_value ts_iso st = (out, st')"
  shows "(out \<noteq> Admitted \<and> out \<noteq> RecordedThenRaised \<and> st' = st) \<or>
     (\<not> fle f_value (F_THRESHOLD cfg) \<and> last_alert_ts_iso st \<noteq> Some ts_iso \<and>
      (\<exists>e. strptime cfg ts_iso = Some e \<and>
           (\<forall>p. last_alert_epoch_data st = Some p \<longrightarrow> p < e \<and> ALERT_COOLDOWN cfg \<le> e - p) \<and>
           ((out = RecordedThenRaised \<and> local_time cfg e = None \<and>
             st' = record_alert e ts_iso st) \<or>
            (out = Admitted \<and>
             (\<exists>l. local_time cfg e = Some l \<and>
                  st' = send_sms_alert sms_ok f_value l (record_alert e ts_iso st))))))"
  using assms
  by (auto simp: maybe_send_alert_def with_alert_lock_def Let_def
        split: if_splits option.splits alert_outcome.splits prod.splits)

lemma record_alert_fields:
  "last_alert_epoch_data (record_alert e ts st) = Some e"
  "last_alert_ts_iso (record_alert e ts st) = Some ts"
  "sms_calls (record_alert e ts st) = sms_calls st"
  "influx_calls (record_alert e ts st) = influx_calls st"
  "last_write_ts_iso (record_alert e ts st) = last_write_ts_iso st"
  by (simp_all add: record_alert_def)

lemma send_sms_alert_fields:
  "last_alert_epoch_data (send_sms_alert ok f l st) = last_alert_epoch_data st"
  "last_alert_ts_iso (send_sms_alert ok f l st) = last_alert_ts_iso st"
  "influx_calls (send_sms_alert ok f l st) = influx_calls st"
  "last_write_ts_iso (send_sms_alert ok f l st) = last_write_ts_iso st"
  by (simp_all add: send_sms_alert_def)

lemma epoch_le_refl: "epoch_le a a"
  by (cases a) simp_all

lemma epoch_le_trans: "epoch_le a b \<Longrightarrow> epoch_le b c \<Longrightarrow> epoch_le a c"
  by (cases a; cases b; cases c) simp_all

lemma maybe_send_alert_epoch:
  assumes "maybe_send_alert cfg sms_ok f_value ts_iso st = (out, st')"
  shows "last_alert_epoch_data st' = last_alert_epoch_data st \<or>
     (\<exists>e. strptime cfg ts_iso = Some e \<and> last_alert_epoch_data st' = Some e \<and>
          (\<forall>p. last_alert_epoch_data st = Some p \<longrightarrow> p < e \<and> ALERT_COOLDOWN cfg \<le> e - p))"
  using maybe_send_alert_step [OF assms]
  by (auto simp: record_alert_fields send_sms_alert_fields)

lemma maybe_send_alert_epoch_le:
  "epoch_le (last_alert_epoch_data st)
     (last_alert_epoch_data (snd (maybe_send_alert cfg sms_ok f_value ts_iso st)))"
proof -
  obtain out st' where r: "maybe_send_alert cfg sms_ok f_value ts_iso st = (out, st')"
    by (cases "maybe_send_alert cfg sms_ok f_value ts_iso st")
  from maybe_send_alert_epoch [OF r] show ?thesis
    by (cases "last_alert_epoch_data st") (auto simp: r epoch_le_refl)
qed

lemma alert_run_epoch_le:
  "epoch_le (last_alert_epoch_data st) (last_alert_epoch_data (alert_run cfg calls st))"
proof (induction calls arbitrary: st)
  case Nil
  show ?case by (simp add: epoch_le_refl)
next
  case (Cons c calls)
  obtain sms_ok f_value ts_iso where c: "c = (sms_ok, f_value, ts_iso)"
    by (cases c)
  show ?case
    unfolding c alert_run.simps
    by (rule epoch_le_trans [OF maybe_send_alert_epoch_le Cons.IH])
qed

lemma cooldown_window_run:
  assumes "last_alert_epoch_data st = Some L" and "L = T \<or> T + ALERT_COOLDOWN cfg \<le> L"
  shows "\<exists>L'. last_alert_epoch_data (alert_run cfg calls st) = Some L' \<and>
              (L' = T \<or> T + ALERT_COOLDOWN cfg \<le> L')"
  using assms
proof (induction calls arbitrary: st L)
  case Nil
  then show ?case by simp
next
  case (Cons c calls)
  obtain sms_ok f_value ts_iso where c: "c = (sms_ok, f_value, ts_iso)"
    by (cases c)
  obtain out st' where r: "maybe_send_alert cfg sms_ok f_value ts_iso st = (out, st')"
    by (cases "maybe_send_alert cfg sms_ok f_value ts_iso st")
  have "\<exists>L1. last_alert_epoch_data st' = Some L1 \<and> (L1 = T \<or> T + ALERT_COOLDOWN cfg \<le> L1)"
    using maybe_send_alert_epoch [OF r] Cons.prems by auto
  then obtain L1 where "last_alert_epoch_data st' = Some L1"
    and "L1 = T \<or> T + ALERT_COOLDOWN cfg \<le> L1" by blast
  from Cons.IH [OF this] show ?case
    by (simp add: c r)
qed

lemma cooldown_window_suppressed:
  assumes "last_alert_epoch_data st = Some L" and "L = T \<or> T + ALERT_COOLDOWN cfg \<le> L"
    and "strptime cfg ts2 = Some e2" and "T < e2" and "e2 < T + ALERT_COOLDOWN cfg"
  shows "fst (maybe_send_alert cfg sms_ok2 f2 ts2 st) \<noteq> Admitted \<and>
         fst (maybe_send_alert cfg sms_ok2 f2 ts2 st) \<noteq> RecordedThenRaised \<and>
         snd (maybe_send_alert cfg sms_ok2 f2 ts2 st) = st"
proof -
  obtain out st' where r: "maybe_send_alert cfg sms_ok2 f2 ts2 st = (out, st')"
    by (cases "maybe_send_alert cfg sms_ok2 f2 ts2 st")
  from maybe_send_alert_step [OF r] assms show ?thesis
    by (auto simp: r)
qed

text \<open>The branches of one evaluation whose timestamp parses, in the order of the source.\<close>

lemma alert_below:
  "fle f_value (F_THRESHOLD cfg) \<Longrightarrow>
   maybe_send_alert cfg sms_ok f_value ts_iso st = (BelowThreshold, st)"
  by (simp add: maybe_send_alert_def)

lemma alert_duplicate:
  "strptime cfg ts_iso = Some ts_epoch \<Longrightarrow> \<not> fle f_value (F_THRESHOLD cfg) \<Longrightarrow>
   last_alert_ts_iso st = Some ts_iso \<Longrightarrow>
   maybe_send_alert cfg sms_ok f_value ts_iso st = (DuplicateTimestamp, st)"
  by (simp add: maybe_send_alert_def with_alert_lock_def)

lemma alert_non_monotonic:
  "strptime cfg ts_iso = Some ts_epoch \<Longrightarrow> \<not> fle f_value (F_THRESHOLD cfg) \<Longrightarrow>
   last_alert_ts_iso st \<noteq> Some ts_iso \<Longrightarrow> last_alert_epoch_data st = Some prev \<Longrightarrow>
   ts_epoch - prev \<le> 0 \<Longrightarrow>
   maybe_send_alert cfg sms_ok f_value ts_iso st = (NonMonotonic, st)"
  by (auto simp: maybe_send_alert_def with_alert_lock_def Let_def)

lemma alert_cooldown:
  "strptime cfg ts_iso = Some ts_epoch \<Longrightarrow> \<not> fle f_value (F_THRESHOLD cfg) \<Longrightarrow>
   last_alert_ts_iso st \<noteq> Some ts_iso \<Longrightarrow> last_alert_epoch_data st = Some prev \<Longrightarrow>
   0 < ts_epoch - prev \<Longrightarrow> ts_epoch - prev < ALERT_COOLDOWN cfg \<Longrightarrow>
   maybe_send_alert cfg sms_ok f_value ts_iso st = (Cooldown, st)"
  by (auto simp: maybe_send_alert_def with_alert_lock_def Let_def)

lemma alert_admitted:
  assumes "strptime cfg ts_iso = Some ts_epoch" and "\<not> fle f_value (F_THRESHOLD cfg)"
    and "last_alert_ts_iso st \<noteq> Some ts_iso"
    and "last_alert_epoch_data st = None \<or>
       (\<exists>p. last_alert_epoch_data st = Some p \<and> 0 < ts_epoch - p \<and>
            ALERT_COOLDOWN cfg \<le> ts_epoch - p)"
  shows "maybe_send_alert cfg sms_ok f_value ts_iso st =
     (case local_time cfg ts_epoch of
        None \<Rightarrow> (RecordedThenRaised, record_alert ts_epoch ts_iso st)
      | Some l \<Rightarrow>
          (Admitted, send_sms_alert sms_ok f_value l (record_alert ts_epoch ts_iso st)))"
  using assms
  by (auto simp: maybe_send_alert_def with_alert_lock_def Let_def split: option.splits)

text \<open>
  C1. For a timestamp that parses: a value at most the threshold is suppressed with no
  state change; a timestamp equal to the last alerted one is suppressed; with a previous
  alert, a non-positive gap to the last alerted epoch is suppressed, and a positive gap
  below the cooldown is suppressed; otherwise the event is admitted, and both
  \<^verbatim>\<open>last_alert_ts_iso\<close> and \<^verbatim>\<open>last_alert_epoch_data\<close> are set to this event's values
  before the send is attempted: the call of \<^verbatim>\<open>send_sms_alert\<close> finds both globals already
  holding this event's values, whatever it then returns, and when the formatting of the
  local time raises, the globals are recorded and no send is made. Consequently, after an
  admitted event at epoch \<open>T\<close>, an evaluation with epoch strictly between \<open>T\<close> and
  \<open>T + cooldown\<close> is suppressed with no state change (by the cooldown branch when its value
  is over the threshold, and after any further evaluations as well), and an evaluation at
  epoch at least \<open>T + cooldown\<close>, strictly greater than \<open>T\<close>, over the threshold, is
  admitted, again recorded before its send.
\<close>

theorem maybe_send_alert_transitions:
  assumes parse: "strptime cfg ts_iso = Some ts_epoch"
  shows
    "(fle f_value (F_THRESHOLD cfg) \<longrightarrow>
        maybe_send_alert cfg sms_ok f_value ts_iso st = (BelowThreshold, st)) \<and>
     (\<not> fle f_value (F_THRESHOLD cfg) \<and> last_alert_ts_iso st = Some ts_iso \<longrightarrow>
        maybe_send_alert cfg sms_ok f_value ts_iso st = (DuplicateTimestamp, st)) \<and>
     (\<not> fle f_value (F_THRESHOLD cfg) \<and> last_alert_ts_iso st \<noteq> Some ts_iso \<and>
      last_alert_epoch_data st = Some prev \<and> ts_epoch - prev \<le> 0 \<longrightarrow>
        maybe_send_alert cfg sms_ok f_value ts_iso st = (NonMonotonic, st)) \<and>
     (\<not> fle f_value (F_THRESHOLD cfg) \<and> last_alert_ts_iso st \<noteq> Some ts_iso \<and>
      last_alert_epoch_data st = Some prev \<and> 0 < ts_epoch - prev \<and>
      ts_epoch - prev < ALERT_COOLDOWN cfg \<longrightarrow>
        maybe_send_alert cfg sms_ok f_value ts_iso st = (Cooldown, st)) \<and>
     (\<not> fle f_value (F_THRESHOLD cfg) \<and> last_alert_ts_iso st \<noteq> Some ts_iso \<and>
      (last_alert_epoch_data st = None \<or>
       (\<exists>p. last_alert_epoch_data st = Some p \<and> 0 < ts_epoch - p \<and>
            ALERT_COOLDOWN cfg \<le> ts_epoch - p)) \<longrightarrow>
        (\<forall>l. local_time cfg ts_epoch = Some l \<longrightarrow>
           maybe_send_alert cfg sms_ok f_value ts_iso st =
             (Admitted, st\<lparr>last_alert_epoch_data := Some ts_epoch,
                           last_alert_ts_iso := Some ts_iso,
                           sms_calls := sms_calls st @
                             [\<lparr>sms_value = f_value, sms_local_time = l,
                               sms_returned = sms_ok,
                               alert_epoch_at_call = Some ts_epoch,
                               alert_ts_at_call = Some ts_iso\<rparr>]\<rparr>)) \<and>
        (local_time cfg ts_epoch = None \<longrightarrow>
           maybe_send_alert cfg sms_ok f_value ts_iso st =
             (RecordedThenRaised, st\<lparr>last_alert_epoch_data := Some ts_epoch,
                                     last_alert_ts_iso := Some ts_iso\<rparr>))) \<and>
     (\<forall>out st_T sms_ok2 f2 ts2 e2.
        maybe_send_alert cfg sms_ok f_value ts_iso st = (out, st_T) \<and>
        (out = Admitted \<or> out = RecordedThenRaised) \<and>
        strptime cfg ts2 = Some e2 \<longrightarrow>
          (ts_epoch < e2 \<and> e2 < ts_epoch + ALERT_COOLDOWN cfg \<longrightarrow>
             maybe_send_alert cfg sms_ok2 f2 ts2 st_T =
               (if fle f2 (F_THRESHOLD cfg) then BelowThreshold else Cooldown, st_T) \<and>
             (\<forall>calls.
                fst (maybe_send_alert cfg sms_ok2 f2 ts2 (alert_run cfg calls st_T)) \<noteq> Admitted \<and>
                fst (maybe_send_alert cfg sms_ok2 f2 ts2 (alert_run cfg calls st_T)) \<noteq>
                  RecordedThenRaised \<and>
                snd (maybe_send_alert cfg sms_ok2 f2 ts2 (alert_run cfg calls st_T)) =
                  alert_run cfg calls st_T)) \<and>
          (ts_epoch + ALERT_COOLDOWN cfg \<le> e2 \<and> ts_epoch < e2 \<and>
           \<not> fle f2 (F_THRESHOLD cfg) \<longrightarrow>
             (\<forall>l. local_time cfg e2 = Some l \<longrightarrow>
                maybe_send_alert cfg sms_ok2 f2 ts2 st_T =
                  (Admitted, st_T\<lparr>last_alert_epoch_data := Some e2,
                               last_alert_ts_iso := Some ts2,
                               sms_calls := sms_calls st_T @
                                 [\<lparr>sms_value = f2, sms_local_time = l,
                                   sms_returned = sms_ok2,
                                   alert_epoch_at_call = Some e2,
                                   alert_ts_at_call = Some ts2\<rparr>]\<rparr>)) \<and>
             (local_time cfg e2 = None \<longrightarrow>
                maybe_send_alert cfg sms_ok2 f2 ts2 st_T =
                  (RecordedThenRaised, st_T\<lparr>last_alert_epoch_data := Some e2,
                                         last_alert_ts_iso := Some ts2\<rparr>))))"
proof -
  have c1: "(fle f_value (F_THRESHOLD cfg) \<longrightarrow>
        maybe_send_alert cfg sms_ok f_value ts_iso st = (BelowThreshold, st))"
    by (simp add: alert_below)
  have c2: "(\<not> fle f_value (F_THRESHOLD cfg) \<and> last_alert_ts_iso st = Some ts_iso \<longrightarrow>
        maybe_send_alert cfg sms_ok f_value ts_iso st = (DuplicateTimestamp, st))"
    using parse by (simp add: alert_duplicate)
  have c3: "(\<not> fle f_value (F_THRESHOLD cfg) \<and> last_alert_ts_iso st \<noteq> Some ts_iso \<and>
      last_alert_epoch_data st = Some prev \<and> ts_epoch - prev \<le> 0 \<longrightarrow>
        maybe_send_alert cfg sms_ok f_value ts_iso st = (NonMonotonic, st))"
    using parse by (simp add: alert_non_monotonic)
  have c4: "(\<not> fle f_value (F_THRESHOLD cfg) \<and> last_alert_ts_iso st \<noteq> Some ts_iso \<and>
      last_alert_epoch_data st = Some prev \<and> 0 < ts_epoch - prev \<and>
      ts_epoch - prev < ALERT_COOLDOWN cfg \<longrightarrow>
        maybe_send_alert cfg sms_ok f_value ts_iso st = (Cooldown, st))"
    using parse by (simp add: alert_cooldown)
  have c5: "(\<not> fle f_value (F_THRESHOLD cfg) \<and> last_alert_ts_iso st \<noteq> Some ts_iso \<and>
      (last_alert_epoch_data st = None \<or>
       (\<exists>p. last_alert_epoch_data st = Some p \<and> 0 < ts_epoch - p \<and>
            ALERT_COOLDOWN cfg \<le> ts_epoch - p)) \<longrightarrow>
        (\<forall>l. local_time cfg ts_epoch = Some l \<longrightarrow>
           maybe_send_alert cfg sms_ok f_value ts_iso st =
             (Admitted, st\<lparr>last_alert_epoch_data := Some ts_epoch,
                           last_alert_ts_iso := Some ts_iso,
                           sms_calls := sms_calls st @
                             [\<lparr>sms_value = f_value, sms_local_time = l,
                               sms_returned = sms_ok,
                               alert_epoch_at_call = Some ts_epoch,
                               alert_ts_at_call = Some ts_iso\<rparr>]\<rparr>)) \<and>
        (local_time cfg ts_epoch = None \<longrightarrow>
           maybe_send_alert cfg sms_ok f_value ts_iso st =
             (RecordedThenRaised, st\<lparr>last_alert_epoch_data := Some ts_epoch,
                                     last_alert_ts_iso := Some ts_iso\<rparr>)))"
  proof (intro impI, elim conjE)
    assume a: "\<not> fle f_value (F_THRESHOLD cfg)" "last_alert_ts_iso st \<noteq> Some ts_iso"
      "last_alert_epoch_data st = None \<or>
       (\<exists>p. last_alert_epoch_data st = Some p \<and> 0 < ts_epoch - p \<and>
            ALERT_COOLDOWN cfg \<le> ts_epoch - p)"
    show "(\<forall>l. local_time cfg ts_epoch = Some l \<longrightarrow>
           maybe_send_alert cfg sms_ok f_value ts_iso st =
             (Admitted, st\<lparr>last_alert_epoch_data := Some ts_epoch,
                           last_alert_ts_iso := Some ts_iso,
                           sms_calls := sms_calls st @
                             [\<lparr>sms_value = f_value, sms_local_time = l,
                               sms_returned = sms_ok,
                               alert_epoch_at_call = Some ts_epoch,
                               alert_ts_at_call = Some ts_iso\<rparr>]\<rparr>)) \<and>
        (local_time cfg ts_epoch = None \<longrightarrow>
           maybe_send_alert cfg sms_ok f_value ts_iso st =
             (RecordedThenRaised, st\<lparr>last_alert_epoch_data := Some ts_epoch,
                                     last_alert_ts_iso := Some ts_iso\<rparr>))"
      by (simp add: alert_admitted [OF parse a] send_sms_alert_def record_alert_def)
  qed
  have c6: "(\<forall>out st_T sms_ok2 f2 ts2 e2.
        maybe_send_alert cfg sms_ok f_value ts_iso st = (out, st_T) \<and>
        (out = Admitted \<or> out = RecordedThenRaised) \<and>
        strptime cfg ts2 = Some e2 \<longrightarrow>
          (ts_epoch < e2 \<and> e2 < ts_epoch + ALERT_COOLDOWN cfg \<longrightarrow>
             maybe_send_alert cfg sms_ok2 f2 ts2 st_T =
               (if fle f2 (F_THRESHOLD cfg) then BelowThreshold else Cooldown, st_T) \<and>
             (\<forall>calls.
                fst (maybe_send_alert cfg sms_ok2 f2 ts2 (alert_run cfg calls st_T)) \<noteq> Admitted \<and>
                fst (maybe_send_alert cfg sms_ok2 f2 ts2 (alert_run cfg calls st_T)) \<noteq>
                  RecordedThenRaised \<and>
                snd (maybe_send_alert cfg sms_ok2 f2 ts2 (alert_run cfg calls st_T)) =
                  alert_run cfg calls st_T)) \<and>
          (ts_epoch + ALERT_COOLDOWN cfg \<le> e2 \<and> ts_epoch < e2 \<and>
           \<not> fle f2 (F_THRESHOLD cfg) \<longrightarrow>
             (\<forall>l. local_time cfg e2 = Some l \<longrightarrow>
                maybe_send_alert cfg sms_ok2 f2 ts2 st_T =
                  (Admitted, st_T\<lparr>last_alert_epoch_data := Some e2,
                               last_alert_ts_iso := Some ts2,
                               sms_calls := sms_calls st_T @
                                 [\<lparr>sms_value = f2, sms_local_time = l,
                                   sms_returned = sms_ok2,
                                   alert_epoch_at_call = Some e2,
                                   alert_ts_at_call = Some ts2\<rparr>]\<rparr>)) \<and>
             (local_time cfg e2 = None \<longrightarrow>
                maybe_send_alert cfg sms_ok2 f2 ts2 st_T =
                  (RecordedThenRaised, st_T\<lparr>last_alert_epoch_data := Some e2,
                                         last_alert_ts_iso := Some ts2\<rparr>))))"
  proof (intro allI impI, elim conjE)
    fix out st_T sms_ok2 f2 ts2 e2
    assume r: "maybe_send_alert cfg sms_ok f_value ts_iso st = (out, st_T)"
      and adm: "out = Admitted \<or> out = RecordedThenRaised"
      and p2: "strptime cfg ts2 = Some e2"
    from maybe_send_alert_step [OF r] adm parse
    have ep: "last_alert_epoch_data st_T = Some ts_epoch"
      and ts: "last_alert_ts_iso st_T = Some ts_iso"
      by (auto simp: record_alert_fields send_sms_alert_fields)
    have inside: "maybe_send_alert cfg sms_ok2 f2 ts2 st_T =
               (if fle f2 (F_THRESHOLD cfg) then BelowThreshold else Cooldown, st_T)"
      if w: "ts_epoch < e2 \<and> e2 < ts_epoch + ALERT_COOLDOWN cfg"
    proof (cases "fle f2 (F_THRESHOLD cfg)")
      case True
      then show ?thesis by (simp add: alert_below)
    next
      case False
      have "ts2 \<noteq> ts_iso" using parse p2 w by auto
      then have "last_alert_ts_iso st_T \<noteq> Some ts2" by (simp add: ts)
      from alert_cooldown [OF p2 False this ep] w False show ?thesis by simp
    qed
    have later: "fst (maybe_send_alert cfg sms_ok2 f2 ts2 (alert_run cfg calls st_T)) \<noteq> Admitted \<and>
                fst (maybe_send_alert cfg sms_ok2 f2 ts2 (alert_run cfg calls st_T)) \<noteq>
                  RecordedThenRaised \<and>
                snd (maybe_send_alert cfg sms_ok2 f2 ts2 (alert_run cfg calls st_T)) =
                  alert_run cfg calls st_T"
      if w: "ts_epoch < e2 \<and> e2 < ts_epoch + ALERT_COOLDOWN cfg" for calls
    proof -
      from w have lo: "ts_epoch < e2" and hi: "e2 < ts_epoch + ALERT_COOLDOWN cfg"
        by simp_all
      obtain L' where a: "last_alert_epoch_data (alert_run cfg calls st_T) = Some L'"
        and b: "L' = ts_epoch \<or> ts_epoch + ALERT_COOLDOWN cfg \<le> L'"
        using cooldown_window_run [of st_T ts_epoch ts_epoch cfg calls] ep by auto
      show ?thesis
        by (rule cooldown_window_suppressed [OF a b p2 lo hi])
    qed
    have beyond: "(\<forall>l. local_time cfg e2 = Some l \<longrightarrow>
                maybe_send_alert cfg sms_ok2 f2 ts2 st_T =
                  (Admitted, st_T\<lparr>last_alert_epoch_data := Some e2,
                               last_alert_ts_iso := Some ts2,
                               sms_calls := sms_calls st_T @
                                 [\<lparr>sms_value = f2, sms_local_time = l,
                                   sms_returned = sms_ok2,
                                   alert_epoch_at_call = Some e2,
                                   alert_ts_at_call = Some ts2\<rparr>]\<rparr>)) \<and>
             (local_time cfg e2 = None \<longrightarrow>
                maybe_send_alert cfg sms_ok2 f2 ts2 st_T =
                  (RecordedThenRaised, st_T\<lparr>last_alert_epoch_data := Some e2,
                                         last_alert_ts_iso := Some ts2\<rparr>))"
      if w: "ts_epoch + ALERT_COOLDOWN cfg \<le> e2 \<and> ts_epoch < e2 \<and>
           \<not> fle f2 (F_THRESHOLD cfg)"
    proof -
      have "ts2 \<noteq> ts_iso" using parse p2 w by auto
      then have n: "last_alert_ts_iso st_T \<noteq> Some ts2" by (simp add: ts)
      have g: "last_alert_epoch_data st_T = None \<or>
         (\<exists>p. last_alert_epoch_data st_T = Some p \<and> 0 < e2 - p \<and>
              ALERT_COOLDOWN cfg \<le> e2 - p)"
        using ep w by simp
      from w have f: "\<not> fle f2 (F_THRESHOLD cfg)" by simp
      show ?thesis
        by (simp add: alert_admitted [OF p2 f n g] send_sms_alert_def record_alert_def)
    qed
    show "(ts_epoch < e2 \<and> e2 < ts_epoch + ALERT_COOLDOWN cfg \<longrightarrow>
             maybe_send_alert cfg sms_ok2 f2 ts2 st_T =
               (if fle f2 (F_THRESHOLD cfg) then BelowThreshold else Cooldown, st_T) \<and>
             (\<forall>calls.
                fst (maybe_send_alert cfg sms_ok2 f2 ts2 (alert_run cfg calls st_T)) \<noteq> Admitted \<and>
                fst (maybe_send_alert cfg sms_ok2 f2 ts2 (alert_run cfg calls st_T)) \<noteq>
                  RecordedThenRaised \<and>
                snd (maybe_send_alert cfg sms_ok2 f2 ts2 (alert_run cfg calls st_T)) =
                  alert_run cfg calls st_T)) \<and>
          (ts_epoch + ALERT_COOLDOWN cfg \<le> e2 \<and> ts_epoch < e2 \<and>
           \<not> fle f2 (F_THRESHOLD cfg) \<longrightarrow>
             (\<forall>l. local_time cfg e2 = Some l \<longrightarrow>
                maybe_send_alert cfg sms_ok2 f2 ts2 st_T =
                  (Admitted, st_T\<lparr>last_alert_epoch_data := Some e2,
                               last_alert_ts_iso := Some ts2,
                               sms_calls := sms_calls st_T @
                                 [\<lparr>sms_value = f2, sms_local_time = l,
                                   sms_returned = sms_ok2,
                                   alert_epoch_at_call = Some e2,
                                   alert_ts_at_call = Some ts2\<rparr>]\<rparr>)) \<and>
             (local_time cfg e2 = None \<longrightarrow>
                maybe_send_alert cfg sms_ok2 f2 ts2 st_T =
                  (RecordedThenRaised, st_T\<lparr>last_alert_epoch_data := Some e2,
                                         last_alert_ts_iso := Some ts2\<rparr>)))"
      using inside later beyond by blast
  qed
  show ?thesis
    by (rule conjI [OF c1 conjI [OF c2 conjI [OF c3 conjI [OF c4 conjI [OF c5 c6]]]]])
qed

theorem maybe_send_alert_transitions_witness:
  "maybe_send_alert default_env True (rnd (36 / 25)) ''2024-01-01T00:00:00Z'' initial_state =
     (BelowThreshold, initial_state) \<and>
   maybe_send_alert default_env True (rnd (8 / 5)) ''2024-01-01T00:00:00Z'' initial_state =
     (Admitted, initial_state\<lparr>last_alert_epoch_data := Some 1704067200,
        last_alert_ts_iso := Some ''2024-01-01T00:00:00Z'',
        sms_calls := sms_calls initial_state @
          [\<lparr>sms_value = rnd (8 / 5), sms_local_time = ''2023-12-31 19:00:00'',
            sms_returned = True, alert_epoch_at_call = Some 1704067200,
            alert_ts_at_call = Some ''2024-01-01T00:00:00Z''\<rparr>]\<rparr>) \<and>
   maybe_send_alert default_env True (rnd (8 / 5)) ''2024-01-01T00:00:05Z''
     (initial_state\<lparr>last_alert_epoch_data := Some 1704067200,
        last_alert_ts_iso := Some ''2024-01-01T00:00:00Z'',
        sms_calls := sms_calls initial_state @
          [\<lparr>sms_value = rnd (8 / 5), sms_local_time = ''2023-12-31 19:00:00'',
            sms_returned = True, alert_epoch_at_call = Some 1704067200,
            alert_ts_at_call = Some ''2024-01-01T00:00:00Z''\<rparr>]\<rparr>) =
     (Cooldown, initial_state\<lparr>last_alert_epoch_data := Some 1704067200,
        last_alert_ts_iso := Some ''2024-01-01T00:00:00Z'',
        sms_calls := sms_calls initial_state @
          [\<lparr>sms_value = rnd (8 / 5), sms_local_time = ''2023-12-31 19:00:00'',
            sms_returned = True, alert_epoch_at_call = Some 1704067200,
            alert_ts_at_call = Some ''2024-01-01T00:00:00Z''\<rparr>]\<rparr>) \<and>
   maybe_send_alert default_env False (rnd (8 / 5)) ''2024-01-01T00:01:00Z''
     (initial_state\<lparr>last_alert_epoch_data := Some 1704067200,
        last_alert_ts_iso := Some ''2024-01-01T00:00:00Z'',
        sms_calls := sms_calls initial_state @
          [\<lparr>sms_value = rnd (8 / 5), sms_local_time = ''2023-12-31 19:00:00'',
            sms_returned = True, alert_epoch_at_call = Some 1704067200,
            alert_ts_at_call = Some ''2024-01-01T00:00:00Z''\<rparr>]\<rparr>) =
     (Admitted, (initial_state\<lparr>last_alert_epoch_data := Some 1704067200,
        last_alert_ts_iso := Some ''2024-01-01T00:00:00Z'',
        sms_calls := sms_calls initial_state @
          [\<lparr>sms_value = rnd (8 / 5), sms_local_time = ''2023-12-31 19:00:00'',
            sms_returned = True, alert_epoch_at_call = Some 1704067200,
            alert_ts_at_call = Some ''2024-01-01T00:00:00Z''\<rparr>]\<rparr>)
        \<lparr>last_alert_epoch_data := Some 1704067260,
         last_alert_ts_iso := Some ''2024-01-01T00:01:00Z'',
         sms_calls := sms_calls (initial_state\<lparr>last_alert_epoch_data := Some 1704067200,
        last_alert_ts_iso := Some ''2024-01-01T00:00:00Z'',
        sms_calls := sms_calls initial_state @
          [\<lparr>sms_value = rnd (8 / 5), sms_local_time = ''2023-12-31 19:00:00'',
            sms_returned = True, alert_epoch_at_call = Some 1704067200,
            alert_ts_at_call = Some ''2024-01-01T00:00:00Z''\<rparr>]\<rparr>) @
           [\<lparr>sms_value = rnd (8 / 5), sms_local_time = ''2023-12-31 19:01:00'',
             sms_returned = False, alert_epoch_at_call = Some 1704067260,
             alert_ts_at_call = Some ''2024-01-01T00:01:00Z''\<rparr>]\<rparr>) \<and>
   maybe_send_alert default_env True (rnd (8 / 5)) ''0001-01-01T00:00:00Z'' initial_state =
     (RecordedThenRaised,
      initial_state\<lparr>last_alert_epoch_data := Some (- 62135596800),
        last_alert_ts_iso := Some ''0001-01-01T00:00:00Z''\<rparr>)"
proof -
  have p: "strptime default_env ''2024-01-01T00:00:00Z'' = Some 1704067200"
    and p5: "strptime default_env ''2024-01-01T00:00:05Z'' = Some 1704067205"
    and p60: "strptime default_env ''2024-01-01T00:01:00Z'' = Some 1704067260"
    and p1: "strptime default_env ''0001-01-01T00:00:00Z'' = Some (- 62135596800)"
    by (simp_all add: default_env_def sample_strptime_def)
  have l: "local_time default_env 1704067200 = Some ''2023-12-31 19:00:00''"
    and l60: "local_time default_env 1704067260 = Some ''2023-12-31 19:01:00''"
    and l1: "local_time default_env (- 62135596800) = None"
    by (simp_all add: default_env_def sample_local_time_def)
  have cd: "ALERT_COOLDOWN default_env = 60"
    by (simp add: default_env_def)
  have low: "fle (rnd (36 / 25)) (F_THRESHOLD default_env)"
    by (simp add: default_env_def rnd_1_44)
  have high: "\<not> fle (rnd (8 / 5)) (F_THRESHOLD default_env)"
    by (simp add: default_env_def rnd_1_6)
  have fresh: "last_alert_ts_iso initial_state \<noteq> Some ''2024-01-01T00:00:00Z''"
    and fresh1: "last_alert_ts_iso initial_state \<noteq> Some ''0001-01-01T00:00:00Z''"
    and unset: "last_alert_epoch_data initial_state = None"
    by (simp_all add: initial_state_def)
  have inside: "(1704067200::int) < 1704067205 \<and>
      (1704067205::int) < 1704067200 + ALERT_COOLDOWN default_env"
    and beyond: "1704067200 + ALERT_COOLDOWN default_env \<le> (1704067260::int) \<and>
      (1704067200::int) < 1704067260 \<and> \<not> fle (rnd (8 / 5)) (F_THRESHOLD default_env)"
    using high by (simp_all add: cd)
  note t1 = maybe_send_alert_transitions [OF p, of "rnd (36 / 25)" True initial_state]
  note t2 = maybe_send_alert_transitions [OF p, of "rnd (8 / 5)" True initial_state]
  note t3 = maybe_send_alert_transitions [OF p1, of "rnd (8 / 5)" True initial_state]
  have below: "maybe_send_alert default_env True (rnd (36 / 25)) ''2024-01-01T00:00:00Z'' initial_state =
     (BelowThreshold, initial_state)"
    by (rule t1 [THEN conjunct1, THEN mp, OF low])
  note t2' = t2 [THEN conjunct2, THEN conjunct2, THEN conjunct2, THEN conjunct2]
  note t3' = t3 [THEN conjunct2, THEN conjunct2, THEN conjunct2, THEN conjunct2]
  have adm: "maybe_send_alert default_env True (rnd (8 / 5)) ''2024-01-01T00:00:00Z'' initial_state =
     (Admitted, initial_state\<lparr>last_alert_epoch_data := Some 1704067200,
        last_alert_ts_iso := Some ''2024-01-01T00:00:00Z'',
        sms_calls := sms_calls initial_state @
          [\<lparr>sms_value = rnd (8 / 5), sms_local_time = ''2023-12-31 19:00:00'',
            sms_returned = True, alert_epoch_at_call = Some 1704067200,
            alert_ts_at_call = Some ''2024-01-01T00:00:00Z''\<rparr>]\<rparr>)"
    by (rule t2' [THEN conjunct1, THEN mp, OF conjI [OF high conjI [OF fresh disjI1 [OF unset]]],
          THEN conjunct1, THEN spec, THEN mp, OF l])
  have raised: "maybe_send_alert default_env True (rnd (8 / 5)) ''0001-01-01T00:00:00Z'' initial_state =
     (RecordedThenRaised,
      initial_state\<lparr>last_alert_epoch_data := Some (- 62135596800),
        last_alert_ts_iso := Some ''0001-01-01T00:00:00Z''\<rparr>)"
    by (rule t3' [THEN conjunct1, THEN mp, OF conjI [OF high conjI [OF fresh1 disjI1 [OF unset]]],
          THEN conjunct2, THEN mp, OF l1])
  note after = t2' [THEN conjunct2, THEN spec, THEN spec, THEN spec, THEN spec, THEN spec,
      THEN spec, THEN mp]
  have cool: "maybe_send_alert default_env True (rnd (8 / 5)) ''2024-01-01T00:00:05Z''
     (initial_state\<lparr>last_alert_epoch_data := Some 1704067200,
        last_alert_ts_iso := Some ''2024-01-01T00:00:00Z'',
        sms_calls := sms_calls initial_state @
          [\<lparr>sms_value = rnd (8 / 5), sms_local_time = ''2023-12-31 19:00:00'',
            sms_returned = True, alert_epoch_at_call = Some 1704067200,
            alert_ts_at_call = Some ''2024-01-01T00:00:00Z''\<rparr>]\<rparr>) =
     (if fle (rnd (8 / 5)) (F_THRESHOLD default_env) then BelowThreshold else Cooldown,
      initial_state\<lparr>last_alert_epoch_data := Some 1704067200,
        last_alert_ts_iso := Some ''2024-01-01T00:00:00Z'',
        sms_calls := sms_calls initial_state @
          [\<lparr>sms_value = rnd (8 / 5), sms_local_time = ''2023-12-31 19:00:00'',
            sms_returned = True, alert_epoch_at_call = Some 1704067200,
            alert_ts_at_call = Some ''2024-01-01T00:00:00Z''\<rparr>]\<rparr>)"
    by (rule after [OF conjI [OF adm conjI [OF disjI1 [OF refl] p5]], THEN conjunct1, THEN mp,
          OF inside, THEN conjunct1])
  have again: "maybe_send_alert default_env False (rnd (8 / 5)) ''2024-01-01T00:01:00Z''
     (initial_state\<lparr>last_alert_epoch_data := Some 1704067200,
        last_alert_ts_iso := Some ''2024-01-01T00:00:00Z'',
        sms_calls := sms_calls initial_state @
          [\<lparr>sms_value = rnd (8 / 5), sms_local_time = ''2023-12-31 19:00:00'',
            sms_returned = True, alert_epoch_at_call = Some 1704067200,
            alert_ts_at_call = Some ''2024-01-01T00:00:00Z''\<rparr>]\<rparr>) =
     (Admitted, (initial_state\<lparr>last_alert_epoch_data := Some 1704067200,
        last_alert_ts_iso := Some ''2024-01-01T00:00:00Z'',
        sms_calls := sms_calls initial_state @
          [\<lparr>sms_value = rnd (8 / 5), sms_local_time = ''2023-12-31 19:00:00'',
            sms_returned = True, alert_epoch_at_call = Some 1704067200,
            alert_ts_at_call = Some ''2024-01-01T00:00:00Z''\<rparr>]\<rparr>)
        \<lparr>last_alert_epoch_data := Some 1704067260,
         last_alert_ts_iso := Some ''2024-01-01T00:01:00Z'',
         sms_calls := sms_calls (initial_state\<lparr>last_alert_epoch_data := Some 1704067200,
        last_alert_ts_iso := Some ''2024-01-01T00:00:00Z'',
        sms_calls := sms_calls initial_state @
          [\<lparr>sms_value = rnd (8 / 5), sms_local_time = ''2023-12-31 19:00:00'',
            sms_returned = True, alert_epoch_at_call = Some 1704067200,
            alert_ts_at_call = Some ''2024-01-01T00:00:00Z''\<rparr>]\<rparr>) @
           [\<lparr>sms_value = rnd (8 / 5), sms_local_time = ''2023-12-31 19:01:00'',
             sms_returned = False, alert_epoch_at_call = Some 1704067260,
             alert_ts_at_call = Some ''2024-01-01T00:01:00Z''\<rparr>]\<rparr>)"
    by (rule after [OF conjI [OF adm conjI [OF disjI1 [OF refl] p60]], THEN conjunct2, THEN mp,
          OF beyond, THEN conjunct1, THEN spec, THEN mp, OF l60])
  have cool': "(if fle (rnd (8 / 5)) (F_THRESHOLD default_env) then BelowThreshold else Cooldown)
      = Cooldown"
    using high by simp
  from cool have cool2: "maybe_send_alert default_env True (rnd (8 / 5)) ''2024-01-01T00:00:05Z''
     (initial_state\<lparr>last_alert_epoch_data := Some 1704067200,
        last_alert_ts_iso := Some ''2024-01-01T00:00:00Z'',
        sms_calls := sms_calls initial_state @
          [\<lparr>sms_value = rnd (8 / 5), sms_local_time = ''2023-12-31 19:00:00'',
            sms_returned = True, alert_epoch_at_call = Some 1704067200,
            alert_ts_at_call = Some ''2024-01-01T00:00:00Z''\<rparr>]\<rparr>) =
     (Cooldown, initial_state\<lparr>last_alert_epoch_data := Some 1704067200,
        last_alert_ts_iso := Some ''2024-01-01T00:00:00Z'',
        sms_calls := sms_calls initial_state @
          [\<lparr>sms_value = rnd (8 / 5), sms_local_time = ''2023-12-31 19:00:00'',
            sms_returned = True, alert_epoch_at_call = Some 1704067200,
            alert_ts_at_call = Some ''2024-01-01T00:00:00Z''\<rparr>]\<rparr>)"
    by (simp only: cool')
  from below adm cool2 again raised show ?thesis
    by (intro conjI)
qed

text \<open>
  C2. The recorded alert epoch never decreases: one evaluation leaves it unchanged or
  sets it to a strictly greater epoch (unset counts as below every epoch), hence it is
  non-decreasing along every run of evaluations; and a call whose event epoch is at most
  the recorded epoch sends nothing and leaves the whole state unchanged, whatever the
  value.
\<close>

theorem alert_epoch_monotone:
  assumes "maybe_send_alert cfg sms_ok f_value ts_iso st = (out, st')"
  shows
    "(last_alert_epoch_data st' = last_alert_epoch_data st \<or>
      (\<exists>e. strptime cfg ts_iso = Some e \<and> last_alert_epoch_data st' = Some e \<and>
           (\<forall>p. last_alert_epoch_data st = Some p \<longrightarrow> p < e))) \<and>
     (\<forall>e p. strptime cfg ts_iso = Some e \<and> last_alert_epoch_data st = Some p \<and> e \<le> p \<longrightarrow>
        out \<noteq> Admitted \<and> out \<noteq> RecordedThenRaised \<and> st' = st) \<and>
     (\<forall>calls. epoch_le (last_alert_epoch_data st)
                (last_alert_epoch_data (alert_run cfg calls st)))"
proof (intro conjI allI impI)
  show "last_alert_epoch_data st' = last_alert_epoch_data st \<or>
      (\<exists>e. strptime cfg ts_iso = Some e \<and> last_alert_epoch_data st' = Some e \<and>
           (\<forall>p. last_alert_epoch_data st = Some p \<longrightarrow> p < e))"
    using maybe_send_alert_epoch [OF assms] by blast
next
  fix e p
  assume h: "strptime cfg ts_iso = Some e \<and> last_alert_epoch_data st = Some p \<and> e \<le> p"
  with maybe_send_alert_step [OF assms]
  have "out \<noteq> Admitted \<and> out \<noteq> RecordedThenRaised \<and> st' = st"
    by auto
  then show "out \<noteq> Admitted" and "out \<noteq> RecordedThenRaised" and "st' = st"
    by simp_all
next
  fix calls
  show "epoch_le (last_alert_epoch_data st) (last_alert_epoch_data (alert_run cfg calls st))"
    by (rule alert_run_epoch_le)
qed

theorem alert_epoch_monotone_witness:
  "maybe_send_alert default_env True PInf ''2024-01-01T00:00:05Z''
     (initial_state\<lparr>last_alert_epoch_data := Some 1704067260,
                     last_alert_ts_iso := Some ''2024-01-01T00:01:00Z''\<rparr>) =
     (NonMonotonic, initial_state\<lparr>last_alert_epoch_data := Some 1704067260,
                     last_alert_ts_iso := Some ''2024-01-01T00:01:00Z''\<rparr>) \<and>
   NonMonotonic \<noteq> Admitted \<and>
   epoch_le (Some 1704067260)
     (last_alert_epoch_data (alert_run default_env [(True, PInf, ''2024-01-01T00:00:05Z'')]
        (initial_state\<lparr>last_alert_epoch_data := Some 1704067260,
                        last_alert_ts_iso := Some ''2024-01-01T00:01:00Z''\<rparr>)))"
proof -
  have r: "maybe_send_alert default_env True PInf ''2024-01-01T00:00:05Z''
     (initial_state\<lparr>last_alert_epoch_data := Some 1704067260,
                     last_alert_ts_iso := Some ''2024-01-01T00:01:00Z''\<rparr>) =
     (NonMonotonic, initial_state\<lparr>last_alert_epoch_data := Some 1704067260,
                     last_alert_ts_iso := Some ''2024-01-01T00:01:00Z''\<rparr>)"
    by (simp add: maybe_send_alert_def with_alert_lock_def default_env_def sample_strptime_def
          initial_state_def)
  have p: "strptime default_env ''2024-01-01T00:00:05Z'' = Some 1704067205"
    by (simp add: default_env_def sample_strptime_def)
  show ?thesis
    using r p alert_epoch_monotone [OF r]
    by (simp add: initial_state_def)
qed

section \<open>Deduplicated write\<close>

text \<open>
  C5. If the reference timestamp equals the recorded \<^verbatim>\<open>last_write_ts_iso\<close> the call
  returns without invoking the store; otherwise it invokes the store, and the recorded
  timestamp is set only when the store call returns: when the store raises, the dedup
  state is untouched and a later call with the same timestamp invokes the store again.
  Two calls in succession with the same (not yet recorded) timestamp against a store that
  succeeds make exactly one store call; the second call is always skipped.
\<close>

theorem write_f_to_influx_dedup:
  "(last_write_ts_iso st = Some ts_iso \<longrightarrow>
      write_f_to_influx store_ok f_value ts_iso st = (SkippedDuplicate, st)) \<and>
   (last_write_ts_iso st \<noteq> Some ts_iso \<longrightarrow>
      write_f_to_influx True f_value ts_iso st =
        (Written, st\<lparr>influx_calls := influx_calls st @ [(ts_iso, f_value, True)],
                      last_write_ts_iso := Some ts_iso\<rparr>) \<and>
      write_f_to_influx False f_value ts_iso st =
        (StoreRaised, st\<lparr>influx_calls := influx_calls st @ [(ts_iso, f_value, False)]\<rparr>) \<and>
      influx_calls (snd (write_f_to_influx store_ok2 f2 ts_iso
                      (snd (write_f_to_influx False f_value ts_iso st)))) =
        influx_calls st @ [(ts_iso, f_value, False), (ts_iso, f2, store_ok2)] \<and>
      influx_calls (snd (write_f_to_influx True f2 ts_iso
                      (snd (write_f_to_influx True f_value ts_iso st)))) =
        influx_calls st @ [(ts_iso, f_value, True)]) \<and>
   write_f_to_influx store_ok2 f2 ts_iso (snd (write_f_to_influx True f_value ts_iso st)) =
     (SkippedDuplicate, snd (write_f_to_influx True f_value ts_iso st))"
  by (simp add: write_f_to_influx_def Let_def)

theorem write_f_to_influx_dedup_witness:
  "last_write_ts_iso initial_state \<noteq> Some ''2024-01-01T00:00:00Z'' \<and>
   influx_calls (snd (write_f_to_influx True (Fin 2) ''2024-01-01T00:00:00Z''
     (snd (write_f_to_influx True (Fin 1) ''2024-01-01T00:00:00Z'' initial_state)))) =
     influx_calls initial_state @ [(''2024-01-01T00:00:00Z'', (Fin 1), True)] \<and>
   influx_calls (snd (write_f_to_influx True (Fin 2) ''2024-01-01T00:00:00Z''
     (snd (write_f_to_influx False (Fin 1) ''2024-01-01T00:00:00Z'' initial_state)))) =
     influx_calls initial_state @
       [(''2024-01-01T00:00:00Z'', (Fin 1), False), (''2024-01-01T00:00:00Z'', (Fin 2), True)]"
proof -
  have fresh: "last_write_ts_iso initial_state \<noteq> Some ''2024-01-01T00:00:00Z''"
    by (simp add: initial_state_def)
  show ?thesis
    using fresh
      write_f_to_influx_dedup [of initial_state "''2024-01-01T00:00:00Z''" True "Fin 1" True "Fin 2"]
    by blast
qed

text \<open>The three ways one deduplicated write ends.\<close>

lemma write_step:
  "write_f_to_influx store_ok f_value ts_iso st = (out, st') \<Longrightarrow>
     (out = SkippedDuplicate \<and> st' = st \<and> last_write_ts_iso st = Some ts_iso) \<or>
     (out = Written \<and> store_ok \<and> last_write_ts_iso st \<noteq> Some ts_iso \<and>
      st' = st\<lparr>influx_calls := influx_calls st @ [(ts_iso, f_value, True)],
               last_write_ts_iso := Some ts_iso\<rparr>) \<or>
     (out = StoreRaised \<and> \<not> store_ok \<and> last_write_ts_iso st \<noteq> Some ts_iso \<and>
      st' = st\<lparr>influx_calls := influx_calls st @ [(ts_iso, f_value, False)]\<rparr>)"
  by (auto simp: write_f_to_influx_def Let_def split: if_splits)

lemma dedup_inv_step:
  assumes "dedup_inv st"
  shows "dedup_inv (snd (write_f_to_influx store_ok f_value ts_iso st))"
proof -
  obtain out st' where r: "write_f_to_influx store_ok f_value ts_iso st = (out, st')"
    by (cases "write_f_to_influx store_ok f_value ts_iso st")
  from write_step [OF r] assms show ?thesis
    by (auto simp: r dedup_inv_def written_timestamps_def distinct_adj_append_iff)
qed

lemma dedup_inv_run: "dedup_inv st \<Longrightarrow> dedup_inv (write_run calls st)"
proof (induction calls arbitrary: st)
  case Nil
  then show ?case by simp
next
  case (Cons c calls)
  obtain store_ok f_value ts_iso where c: "c = (store_ok, f_value, ts_iso)"
    by (cases c)
  show ?case
    unfolding c write_run.simps
    by (rule Cons.IH [OF dedup_inv_step [OF Cons.prems]])
qed

lemma write_run_append:
  "write_run (xs @ ys) st = write_run ys (write_run xs st)"
  by (induction xs arbitrary: st) auto

lemma written_step_extends:
  "\<exists>d. written_timestamps (snd (write_f_to_influx store_ok f_value ts_iso st)) =
         written_timestamps st @ d \<and> set d \<subseteq> {ts_iso}"
  by (auto simp: write_f_to_influx_def Let_def written_timestamps_def)

lemma written_run_extends:
  "\<exists>d. written_timestamps (write_run calls st) = written_timestamps st @ d \<and>
       set d \<subseteq> (snd \<circ> snd) ` set calls"
proof (induction calls arbitrary: st)
  case Nil
  show ?case by simp
next
  case (Cons c calls)
  obtain store_ok f_value ts_iso where c: "c = (store_ok, f_value, ts_iso)"
    by (cases c)
  obtain d1 where d1: "written_timestamps (snd (write_f_to_influx store_ok f_value ts_iso st)) =
      written_timestamps st @ d1" "set d1 \<subseteq> {ts_iso}"
    using written_step_extends by blast
  obtain d2 where d2: "written_timestamps
        (write_run calls (snd (write_f_to_influx store_ok f_value ts_iso st))) =
      written_timestamps (snd (write_f_to_influx store_ok f_value ts_iso st)) @ d2"
      "set d2 \<subseteq> (snd \<circ> snd) ` set calls"
    using Cons.IH by blast
  have "written_timestamps (write_run (c # calls) st) = written_timestamps st @ (d1 @ d2)"
    by (simp add: c d1 d2)
  moreover have "set (d1 @ d2) \<subseteq> (snd \<circ> snd) ` set (c # calls)"
    using d1(2) d2(2) by (auto simp: c)
  ultimately show ?case by blast
qed

lemma distinct_adj_single_value:
  "distinct_adj xs \<Longrightarrow> set xs \<subseteq> {T} \<Longrightarrow> length xs \<le> 1"
  by (cases xs rule: remdups_adj.cases) auto

lemma count_list_le_length: "count_list xs x \<le> length xs"
  by (induction xs) auto

lemma count_list_absent: "x \<notin> set xs \<Longrightarrow> count_list xs x = 0"
  by (induction xs) auto

lemma count_list_app: "count_list (xs @ ys) x = count_list xs x + count_list ys x"
  by (induction xs) auto

text \<open>
  C6 (as amended). The dedup state remembers the latest written timestamp only. Over a
  process lifetime of deduplicated write calls, no two consecutive successful store writes
  carry the same timestamp; hence whenever the calls carrying \<open>T\<close> are not interleaved with
  a call carrying another timestamp (they form one block of the run, with any calls before
  and after it), at most one successful store write carries \<open>T\<close>.
\<close>

theorem write_dedup_adjacent:
  "distinct_adj (written_timestamps (write_run calls initial_state)) \<and>
   (\<forall>pre mid post.
      calls = pre @ mid @ post \<and> (\<forall>c \<in> set mid. snd (snd c) = T) \<and>
      (\<forall>c \<in> set pre \<union> set post. snd (snd c) \<noteq> T) \<longrightarrow>
      count_list (written_timestamps (write_run calls initial_state)) T \<le> 1)"
proof (intro conjI allI impI)
  have inv0: "dedup_inv initial_state"
    by (simp add: dedup_inv_def written_timestamps_def initial_state_def)
  from dedup_inv_run [OF inv0, of calls]
  show adj: "distinct_adj (written_timestamps (write_run calls initial_state))"
    by (simp add: dedup_inv_def)
  fix pre mid post
  assume h: "calls = pre @ mid @ post \<and> (\<forall>c \<in> set mid. snd (snd c) = T) \<and>
      (\<forall>c \<in> set pre \<union> set post. snd (snd c) \<noteq> T)"
  define s1 where "s1 = write_run pre initial_state"
  define s2 where "s2 = write_run mid s1"
  have run: "write_run calls initial_state = write_run post s2"
    using h by (simp add: write_run_append s1_def s2_def)
  have w0: "written_timestamps initial_state = []"
    by (simp add: written_timestamps_def initial_state_def)
  obtain d1 where d1: "written_timestamps s1 = d1" "set d1 \<subseteq> (snd \<circ> snd) ` set pre"
    using written_run_extends [of pre initial_state] by (auto simp: s1_def w0)
  obtain d2 where d2: "written_timestamps s2 = written_timestamps s1 @ d2"
    "set d2 \<subseteq> (snd \<circ> snd) ` set mid"
    using written_run_extends [of mid s1] by (auto simp: s2_def)
  obtain d3 where d3: "written_timestamps (write_run post s2) = written_timestamps s2 @ d3"
    "set d3 \<subseteq> (snd \<circ> snd) ` set post"
    using written_run_extends [of post s2] by auto
  have all: "written_timestamps (write_run calls initial_state) = d1 @ d2 @ d3"
    by (simp add: run d3 d2 d1)
  have n1: "T \<notin> set d1" and n3: "T \<notin> set d3"
    using d1(2) d3(2) h by auto
  have only: "set d2 \<subseteq> {T}"
    using d2(2) h by auto
  have "distinct_adj (d1 @ d2 @ d3)"
    using adj by (simp add: all)
  then have "distinct_adj d2"
    by (auto simp: distinct_adj_append_iff)
  from distinct_adj_single_value [OF this only]
  have "count_list d2 T \<le> 1"
    using count_list_le_length [of d2 T] by simp
  then show "count_list (written_timestamps (write_run calls initial_state)) T \<le> 1"
    by (simp add: all count_list_app count_list_absent n1 n3)
qed

text \<open>
  C6 as stated fails: with a successful write of another timestamp between two calls
  carrying \<open>T\<close>, the store is written twice for \<open>T\<close>.
\<close>

theorem write_dedup_interleaved_counterexample:
  "count_list (written_timestamps (write_run
      [(True, Fin 2, ''2024-01-01T00:00:00Z''), (True, Fin 2, ''2024-01-01T00:00:05Z''),
       (True, Fin 2, ''2024-01-01T00:00:00Z'')] initial_state)) ''2024-01-01T00:00:00Z'' = 2 \<and>
   \<not> count_list (written_timestamps (write_run
      [(True, Fin 2, ''2024-01-01T00:00:00Z''), (True, Fin 2, ''2024-01-01T00:00:05Z''),
       (True, Fin 2, ''2024-01-01T00:00:00Z'')] initial_state)) ''2024-01-01T00:00:00Z'' \<le> 1"
  by (simp add: write_f_to_influx_def written_timestamps_def initial_state_def)

theorem write_dedup_adjacent_witness:
  "count_list (written_timestamps (write_run
      [(True, Fin 2, ''2024-01-01T00:00:05Z''), (True, Fin 2, ''2024-01-01T00:00:00Z''),
       (False, Fin 2, ''2024-01-01T00:00:00Z''), (True, Fin 3, ''2024-01-01T00:00:00Z'')]
      initial_state)) ''2024-01-01T00:00:00Z'' \<le> 1"
proof -
  have h: "[(True, Fin 2, ''2024-01-01T00:00:05Z''), (True, Fin 2, ''2024-01-01T00:00:00Z''),
       (False, Fin 2, ''2024-01-01T00:00:00Z''), (True, Fin 3, ''2024-01-01T00:00:00Z'')] =
      [(True, Fin 2, ''2024-01-01T00:00:05Z'')] @
      [(True, Fin 2, ''2024-01-01T00:00:00Z''), (False, Fin 2, ''2024-01-01T00:00:00Z''),
       (True, Fin 3, ''2024-01-01T00:00:00Z'')] @ [] \<and>
     (\<forall>c \<in> set [(True, Fin 2, ''2024-01-01T00:00:00Z''), (False, Fin 2, ''2024-01-01T00:00:00Z''),
       (True, Fin 3, ''2024-01-01T00:00:00Z'')]. snd (snd c) = ''2024-01-01T00:00:00Z'') \<and>
     (\<forall>c \<in> set [(True, Fin 2, ''2024-01-01T00:00:05Z'')] \<union> set [].
        snd (snd c) \<noteq> ''2024-01-01T00:00:00Z'')"
    by simp
  from write_dedup_adjacent [of "[(True, Fin 2, ''2024-01-01T00:00:05Z''),
       (True, Fin 2, ''2024-01-01T00:00:00Z''),
       (False, Fin 2, ''2024-01-01T00:00:00Z''), (True, Fin 3, ''2024-01-01T00:00:00Z'')]"
       "''2024-01-01T00:00:00Z''", THEN conjunct2, THEN spec, THEN spec, THEN spec, THEN mp, OF h]
  show ?thesis .
qed

section \<open>Fusion step\<close>

text \<open>An alert evaluation does not touch the store trace or the dedup state.\<close>

lemma maybe_send_alert_keeps_writes:
  "influx_calls (snd (maybe_send_alert cfg sms_ok f_value ts_iso st)) = influx_calls st \<and>
   last_write_ts_iso (snd (maybe_send_alert cfg sms_ok f_value ts_iso st)) =
     last_write_ts_iso st"
  by (auto simp: maybe_send_alert_def with_alert_lock_def send_sms_alert_def record_alert_def
        Let_def split: option.splits alert_outcome.splits prod.splits)

lemma maybe_send_alert_keeps_writes_D:
  assumes "maybe_send_alert cfg sms_ok f_value ts_iso st = (a, st2)"
  shows "influx_calls st2 = influx_calls st" and "last_write_ts_iso st2 = last_write_ts_iso st"
  using maybe_send_alert_keeps_writes [of cfg sms_ok f_value ts_iso st] assms by simp_all

text \<open>
  C3. When both sensor slots are populated and their timestamps are within the
  synchronization window, the fusion step computes \<open>fmi = 10 - 0.25 * (t - h)\<close> in float
  arithmetic. If \<open>fmi \<le> 0\<close> there is no metric, no store write, and the whole state (dedup
  and alert state included) is unchanged. Otherwise the division \<open>u_eff / fmi\<close> does not
  raise, the metric is its result \<open>f_val\<close> with \<open>u_eff = u\<close> if \<open>u \<ge> 1\<close> and \<open>1\<close> otherwise (so
  a wind below 1 km/h is used as exactly 1), and this \<open>f_val\<close> is what is passed to the
  deduplicated write and, unless the write raises, to the alert evaluation: a successful
  write of a new timestamp adds the point \<open>(ts_iso, f_val)\<close> to the store. Temperature 30
  and humidity 40 give \<open>fmi = 12.5\<close>, and wind 18 km/h gives the float written \<^verbatim>\<open>1.44\<close>.
\<close>

theorem compute_and_store_formula:
  assumes "latest_dht_t st = Some t" and "latest_dht_h st = Some h"
    and "latest_wind_u st = Some u"
    and "latest_dht_ts st = Some ts_dht" and "latest_wind_ts st = Some ts_wind"
    and "seconds_between ts_dht ts_wind \<le> SYNC_WINDOW_S cfg"
  shows
    "(let fmi = fsub (Fin 10) (fmul (Fin (1 / 4)) (fsub t h));
          u_eff = (if fle (Fin 1) u then u else Fin 1);
          ts_iso = strftime cfg (max ts_dht ts_wind);
          r = compute_and_store_if_ready cfg store_ok sms_ok st
      in (fle fmi (Fin 0) \<longrightarrow> r = (FmiNonPositive fmi, st)) \<and>
         (\<not> fle fmi (Fin 0) \<longrightarrow>
            (\<exists>f_val. fdiv u_eff fmi = Some f_val \<and>
               (case write_f_to_influx store_ok f_val ts_iso st of
                  (StoreRaised, st1) \<Rightarrow>
                    r = (Fused fmi u_eff f_val ts_iso StoreRaised None, st1)
                | (w, st1) \<Rightarrow>
                    r = (Fused fmi u_eff f_val ts_iso w
                           (Some (fst (maybe_send_alert cfg sms_ok f_val ts_iso st1))),
                         snd (maybe_send_alert cfg sms_ok f_val ts_iso st1))) \<and>
               (store_ok \<and> last_write_ts_iso st \<noteq> Some ts_iso \<longrightarrow>
                  influx_calls (snd r) = influx_calls st @ [(ts_iso, f_val, True)] \<and>
                  last_write_ts_iso (snd r) = Some ts_iso))) \<and>
         (\<not> fle (Fin 1) u \<longrightarrow> u_eff = Fin 1) \<and>
         (t = Fin 30 \<and> h = Fin 40 \<longrightarrow> fmi = Fin (25 / 2)) \<and>
         (t = Fin 30 \<and> h = Fin 40 \<and> u = Fin 18 \<longrightarrow>
            fdiv u_eff fmi = Some (rnd (36 / 25)) \<and>
            rnd (36 / 25) = Fin (3242591731706757 / 2251799813685248)))"
proof -
  define fmi where "fmi = fsub (Fin 10) (fmul (Fin (1 / 4)) (fsub t h))"
  define u_eff where "u_eff = (if fle (Fin 1) u then u else Fin 1)"
  let ?ts = "strftime cfg (max ts_dht ts_wind)"
  define r where "r = compute_and_store_if_ready cfg store_ok sms_ok st"
  have m: "(if ts_wind \<le> ts_dht then ts_dht else ts_wind) = max ts_dht ts_wind"
    by (simp add: max_def)
  have nonpos: "fle fmi (Fin 0) \<longrightarrow> r = (FmiNonPositive fmi, st)"
    using assms
    by (simp add: r_def fmi_def compute_and_store_if_ready_def Let_def)
  have pos: "\<not> fle fmi (Fin 0) \<longrightarrow> (\<exists>f_val. fdiv u_eff fmi = Some f_val \<and>
               (case write_f_to_influx store_ok f_val ?ts st of
                  (StoreRaised, st1) \<Rightarrow>
                    r = (Fused fmi u_eff f_val ?ts StoreRaised None, st1)
                | (w, st1) \<Rightarrow>
                    r = (Fused fmi u_eff f_val ?ts w
                           (Some (fst (maybe_send_alert cfg sms_ok f_val ?ts st1))),
                         snd (maybe_send_alert cfg sms_ok f_val ?ts st1))) \<and>
               (store_ok \<and> last_write_ts_iso st \<noteq> Some ?ts \<longrightarrow>
                  influx_calls (snd r) = influx_calls st @ [(?ts, f_val, True)] \<and>
                  last_write_ts_iso (snd r) = Some ?ts))"
  proof
    assume np: "\<not> fle fmi (Fin 0)"
    obtain f_val where f: "fdiv u_eff fmi = Some f_val"
      using fdiv_defined [OF np] by blast
    have unfold: "r =
        (case write_f_to_influx store_ok f_val ?ts st of
           (StoreRaised, st1) \<Rightarrow> (Fused fmi u_eff f_val ?ts StoreRaised None, st1)
         | (w, st1) \<Rightarrow>
             (case maybe_send_alert cfg sms_ok f_val ?ts st1 of
                (a, st2) \<Rightarrow> (Fused fmi u_eff f_val ?ts w (Some a), st2)))"
      using assms np f
      by (simp add: r_def compute_and_store_if_ready_def Let_def m
            fmi_def [symmetric] u_eff_def [symmetric])
    have a: "case write_f_to_influx store_ok f_val ?ts st of
                  (StoreRaised, st1) \<Rightarrow>
                    r = (Fused fmi u_eff f_val ?ts StoreRaised None, st1)
                | (w, st1) \<Rightarrow>
                    r = (Fused fmi u_eff f_val ?ts w
                           (Some (fst (maybe_send_alert cfg sms_ok f_val ?ts st1))),
                         snd (maybe_send_alert cfg sms_ok f_val ?ts st1))"
      unfolding unfold
      by (simp split: prod.splits write_outcome.splits)
    have b: "store_ok \<and> last_write_ts_iso st \<noteq> Some ?ts \<longrightarrow>
                  influx_calls (snd r) = influx_calls st @ [(?ts, f_val, True)] \<and>
                  last_write_ts_iso (snd r) = Some ?ts"
      unfolding unfold
      by (auto simp: write_f_to_influx_def Let_def split: prod.splits
            dest: maybe_send_alert_keeps_writes_D)
    have "fdiv u_eff fmi = Some f_val \<and>
               (case write_f_to_influx store_ok f_val ?ts st of
                  (StoreRaised, st1) \<Rightarrow>
                    r = (Fused fmi u_eff f_val ?ts StoreRaised None, st1)
                | (w, st1) \<Rightarrow>
                    r = (Fused fmi u_eff f_val ?ts w
                           (Some (fst (maybe_send_alert cfg sms_ok f_val ?ts st1))),
                         snd (maybe_send_alert cfg sms_ok f_val ?ts st1))) \<and>
               (store_ok \<and> last_write_ts_iso st \<noteq> Some ?ts \<longrightarrow>
                  influx_calls (snd r) = influx_calls st @ [(?ts, f_val, True)] \<and>
                  last_write_ts_iso (snd r) = Some ?ts)"
      by (rule conjI [OF f conjI [OF a b]])
    then show "(\<exists>f_val. fdiv u_eff fmi = Some f_val \<and>
               (case write_f_to_influx store_ok f_val ?ts st of
                  (StoreRaised, st1) \<Rightarrow>
                    r = (Fused fmi u_eff f_val ?ts StoreRaised None, st1)
                | (w, st1) \<Rightarrow>
                    r = (Fused fmi u_eff f_val ?ts w
                           (Some (fst (maybe_send_alert cfg sms_ok f_val ?ts st1))),
                         snd (maybe_send_alert cfg sms_ok f_val ?ts st1))) \<and>
               (store_ok \<and> last_write_ts_iso st \<noteq> Some ?ts \<longrightarrow>
                  influx_calls (snd r) = influx_calls st @ [(?ts, f_val, True)] \<and>
                  last_write_ts_iso (snd r) = Some ?ts))"
      by (rule exI)
  qed
  have floor1: "\<not> fle (Fin 1) u \<longrightarrow> u_eff = Fin 1"
    by (simp add: u_eff_def)
  have sc1: "t = Fin 30 \<and> h = Fin 40 \<longrightarrow> fmi = Fin (25 / 2)"
    by (simp add: fmi_def rnd_m10 rnd_m5_2 rnd_25_2)
  have sc2: "t = Fin 30 \<and> h = Fin 40 \<and> u = Fin 18 \<longrightarrow>
            fdiv u_eff fmi = Some (rnd (36 / 25)) \<and>
            rnd (36 / 25) = Fin (3242591731706757 / 2251799813685248)"
    by (simp add: fmi_def u_eff_def rnd_m10 rnd_m5_2 rnd_25_2 rnd_1_44)
  show ?thesis
    unfolding Let_def fmi_def [symmetric] u_eff_def [symmetric] r_def [symmetric]
    by (rule conjI [OF nonpos conjI [OF pos conjI [OF floor1 conjI [OF sc1 sc2]]]])
qed

theorem compute_and_store_formula_witness:
  "compute_and_store_if_ready default_env True True
      (initial_state\<lparr>latest_dht_t := Some (Fin 30), latest_dht_h := Some (Fin 40),
         latest_dht_ts := Some 1704067200, latest_wind_u := Some (Fin 18),
         latest_wind_ts := Some 1704067200\<rparr>) =
      (Fused (Fin (25 / 2)) (Fin 18) (rnd (36 / 25)) ''2024-01-01T00:00:00Z'' Written
         (Some BelowThreshold),
       initial_state\<lparr>latest_dht_t := Some (Fin 30), latest_dht_h := Some (Fin 40),
         latest_dht_ts := Some 1704067200, latest_wind_u := Some (Fin 18),
         latest_wind_ts := Some 1704067200,
         last_write_ts_iso := Some ''2024-01-01T00:00:00Z'',
         influx_calls := [(''2024-01-01T00:00:00Z'', rnd (36 / 25), True)]\<rparr>) \<and>
   compute_and_store_if_ready default_env True True
      (initial_state\<lparr>latest_dht_t := Some (rnd (403 / 10)), latest_dht_h := Some (rnd (3 / 10)),
         latest_dht_ts := Some 1704067200, latest_wind_u := Some (Fin 18),
         latest_wind_ts := Some 1704067200\<rparr>) =
      (FmiNonPositive (Fin 0),
       initial_state\<lparr>latest_dht_t := Some (rnd (403 / 10)), latest_dht_h := Some (rnd (3 / 10)),
         latest_dht_ts := Some 1704067200, latest_wind_u := Some (Fin 18),
         latest_wind_ts := Some 1704067200\<rparr>)"
proof -
  define st30 where "st30 = initial_state\<lparr>latest_dht_t := Some (Fin 30), latest_dht_h := Some (Fin 40),
         latest_dht_ts := Some 1704067200, latest_wind_u := Some (Fin 18),
         latest_wind_ts := Some 1704067200\<rparr>"
  define st403 where "st403 = initial_state\<lparr>latest_dht_t := Some (rnd (403 / 10)), latest_dht_h := Some (rnd (3 / 10)),
         latest_dht_ts := Some 1704067200, latest_wind_u := Some (Fin 18),
         latest_wind_ts := Some 1704067200\<rparr>"
  have sync: "seconds_between 1704067200 1704067200 \<le> SYNC_WINDOW_S default_env"
    by (simp add: seconds_between_def default_env_def)
  have ts: "strftime default_env (max 1704067200 1704067200) = ''2024-01-01T00:00:00Z''"
    by (simp add: default_env_def sample_strftime_def)
  have low: "fle (rnd (36 / 25)) (F_THRESHOLD default_env)"
    by (simp add: default_env_def rnd_1_44)
  have s30: "latest_dht_t st30 = Some (Fin 30)" "latest_dht_h st30 = Some (Fin 40)"
    "latest_wind_u st30 = Some (Fin 18)" "latest_dht_ts st30 = Some 1704067200"
    "latest_wind_ts st30 = Some 1704067200"
    by (simp_all add: st30_def)
  have s403: "latest_dht_t st403 = Some (rnd (403 / 10))"
    "latest_dht_h st403 = Some (rnd (3 / 10))"
    "latest_wind_u st403 = Some (Fin 18)" "latest_dht_ts st403 = Some 1704067200"
    "latest_wind_ts st403 = Some 1704067200"
    by (simp_all add: st403_def)
  have ueff: "(if fle (Fin 1) (Fin 18) then Fin 18 else Fin 1) = Fin 18"
    by simp
  have pos: "\<not> fle (Fin (25 / 2)) (Fin 0)" and zero: "fle (Fin 0) (Fin 0)"
    by simp_all
  note A = compute_and_store_formula [OF s30 sync, of True True,
      unfolded Let_def fmi_30_40 ueff ts]
  from A [THEN conjunct2, THEN conjunct1, THEN mp, OF pos]
  obtain f_val where f: "fdiv (Fin 18) (Fin (25 / 2)) = Some f_val"
    and c: "case write_f_to_influx True f_val ''2024-01-01T00:00:00Z'' st30 of
        (StoreRaised, st1) \<Rightarrow>
          compute_and_store_if_ready default_env True True st30 =
            (Fused (Fin (25 / 2)) (Fin 18) f_val ''2024-01-01T00:00:00Z'' StoreRaised None, st1)
      | (w, st1) \<Rightarrow>
          compute_and_store_if_ready default_env True True st30 =
            (Fused (Fin (25 / 2)) (Fin 18) f_val ''2024-01-01T00:00:00Z'' w
               (Some (fst (maybe_send_alert default_env True f_val
                        ''2024-01-01T00:00:00Z'' st1))),
             snd (maybe_send_alert default_env True f_val ''2024-01-01T00:00:00Z'' st1))"
    by (elim exE conjE)
  from f have fv: "f_val = rnd (36 / 25)"
    by (simp only: f_18 option.inject)
  have w: "write_f_to_influx True (rnd (36 / 25)) ''2024-01-01T00:00:00Z'' st30 =
      (Written, st30\<lparr>influx_calls := [(''2024-01-01T00:00:00Z'', rnd (36 / 25), True)],
                     last_write_ts_iso := Some ''2024-01-01T00:00:00Z''\<rparr>)"
    by (simp add: write_f_to_influx_def st30_def initial_state_def)
  have a: "compute_and_store_if_ready default_env True True st30 =
      (Fused (Fin (25 / 2)) (Fin 18) (rnd (36 / 25)) ''2024-01-01T00:00:00Z'' Written
         (Some BelowThreshold),
       st30\<lparr>influx_calls := [(''2024-01-01T00:00:00Z'', rnd (36 / 25), True)],
            last_write_ts_iso := Some ''2024-01-01T00:00:00Z''\<rparr>)"
    using c unfolding fv w by (simp add: alert_below [OF low])
  note B = compute_and_store_formula [OF s403 sync, of True True,
      unfolded Let_def fmi_40_3]
  have b: "compute_and_store_if_ready default_env True True st403 =
      (FmiNonPositive (Fin 0), st403)"
    by (rule B [THEN conjunct1, THEN mp, OF zero])
  from a b show ?thesis
    unfolding st30_def st403_def by (simp add: initial_state_def)
qed

text \<open>
  C10. When the store write raises for a fusion event, \<^verbatim>\<open>maybe_send_alert\<close> is not called
  for that event: no SMS call is made and the alert state (and the dedup state) is
  unchanged, however large the value; only the failed store call is added to the trace.
\<close>

theorem store_failure_skips_alert:
  "(latest_dht_t st = Some t \<and> latest_dht_h st = Some h \<and> latest_wind_u st = Some u \<and>
    latest_dht_ts st = Some ts_dht \<and> latest_wind_ts st = Some ts_wind \<and>
    seconds_between ts_dht ts_wind \<le> SYNC_WINDOW_S cfg \<and>
    \<not> fle (fsub (Fin 10) (fmul (Fin (1 / 4)) (fsub t h))) (Fin 0) \<and>
    last_write_ts_iso st \<noteq> Some (strftime cfg (max ts_dht ts_wind)) \<longrightarrow>
      (\<exists>f_val.
         fdiv (if fle (Fin 1) u then u else Fin 1)
           (fsub (Fin 10) (fmul (Fin (1 / 4)) (fsub t h))) = Some f_val \<and>
         compute_and_store_if_ready cfg False sms_ok st =
           (Fused (fsub (Fin 10) (fmul (Fin (1 / 4)) (fsub t h)))
              (if fle (Fin 1) u then u else Fin 1) f_val
              (strftime cfg (max ts_dht ts_wind)) StoreRaised None,
            st\<lparr>influx_calls := influx_calls st @
                 [(strftime cfg (max ts_dht ts_wind), f_val, False)]\<rparr>))) \<and>
   (compute_and_store_if_ready cfg store_ok sms_ok st =
      (Fused fmi u_eff f_val ts_iso StoreRaised a, st') \<longrightarrow>
      a = None \<and> sms_calls st' = sms_calls st \<and>
      last_alert_epoch_data st' = last_alert_epoch_data st \<and>
      last_alert_ts_iso st' = last_alert_ts_iso st \<and>
      last_write_ts_iso st' = last_write_ts_iso st)"
proof (rule conjI)
  show "(latest_dht_t st = Some t \<and> latest_dht_h st = Some h \<and> latest_wind_u st = Some u \<and>
    latest_dht_ts st = Some ts_dht \<and> latest_wind_ts st = Some ts_wind \<and>
    seconds_between ts_dht ts_wind \<le> SYNC_WINDOW_S cfg \<and>
    \<not> fle (fsub (Fin 10) (fmul (Fin (1 / 4)) (fsub t h))) (Fin 0) \<and>
    last_write_ts_iso st \<noteq> Some (strftime cfg (max ts_dht ts_wind)) \<longrightarrow>
      (\<exists>f_val.
         fdiv (if fle (Fin 1) u then u else Fin 1)
           (fsub (Fin 10) (fmul (Fin (1 / 4)) (fsub t h))) = Some f_val \<and>
         compute_and_store_if_ready cfg False sms_ok st =
           (Fused (fsub (Fin 10) (fmul (Fin (1 / 4)) (fsub t h)))
              (if fle (Fin 1) u then u else Fin 1) f_val
              (strftime cfg (max ts_dht ts_wind)) StoreRaised None,
            st\<lparr>influx_calls := influx_calls st @
                 [(strftime cfg (max ts_dht ts_wind), f_val, False)]\<rparr>)))"
  proof (intro impI, elim conjE)
    assume h: "latest_dht_t st = Some t" "latest_dht_h st = Some h" "latest_wind_u st = Some u"
      "latest_dht_ts st = Some ts_dht" "latest_wind_ts st = Some ts_wind"
      "seconds_between ts_dht ts_wind \<le> SYNC_WINDOW_S cfg"
      and np: "\<not> fle (fsub (Fin 10) (fmul (Fin (1 / 4)) (fsub t h))) (Fin 0)"
      and fresh: "last_write_ts_iso st \<noteq> Some (strftime cfg (max ts_dht ts_wind))"
    have m: "(if ts_wind \<le> ts_dht then ts_dht else ts_wind) = max ts_dht ts_wind"
      by (simp add: max_def)
    obtain f_val where f: "fdiv (if fle (Fin 1) u then u else Fin 1)
           (fsub (Fin 10) (fmul (Fin (1 / 4)) (fsub t h))) = Some f_val"
      using fdiv_defined [OF np] by blast
    have "compute_and_store_if_ready cfg False sms_ok st =
           (Fused (fsub (Fin 10) (fmul (Fin (1 / 4)) (fsub t h)))
              (if fle (Fin 1) u then u else Fin 1) f_val
              (strftime cfg (max ts_dht ts_wind)) StoreRaised None,
            st\<lparr>influx_calls := influx_calls st @
                 [(strftime cfg (max ts_dht ts_wind), f_val, False)]\<rparr>)"
      using h np fresh f
      by (simp add: compute_and_store_if_ready_def write_f_to_influx_def Let_def m)
    with f show "\<exists>f_val.
         fdiv (if fle (Fin 1) u then u else Fin 1)
           (fsub (Fin 10) (fmul (Fin (1 / 4)) (fsub t h))) = Some f_val \<and>
         compute_and_store_if_ready cfg False sms_ok st =
           (Fused (fsub (Fin 10) (fmul (Fin (1 / 4)) (fsub t h)))
              (if fle (Fin 1) u then u else Fin 1) f_val
              (strftime cfg (max ts_dht ts_wind)) StoreRaised None,
            st\<lparr>influx_calls := influx_calls st @
                 [(strftime cfg (max ts_dht ts_wind), f_val, False)]\<rparr>)"
      by (intro exI [of _ f_val] conjI)
  qed
next
  show "(compute_and_store_if_ready cfg store_ok sms_ok st =
      (Fused fmi u_eff f_val ts_iso StoreRaised a, st') \<longrightarrow>
      a = None \<and> sms_calls st' = sms_calls st \<and>
      last_alert_epoch_data st' = last_alert_epoch_data st \<and>
      last_alert_ts_iso st' = last_alert_ts_iso st \<and>
      last_write_ts_iso st' = last_write_ts_iso st)"
  proof
    assume r: "compute_and_store_if_ready cfg store_ok sms_ok st =
      (Fused fmi u_eff f_val ts_iso StoreRaised a, st')"
    then have "a = None \<and> st' = st\<lparr>influx_calls := influx_calls st @ [(ts_iso, f_val, False)]\<rparr>"
      by (auto simp: compute_and_store_if_ready_def write_f_to_influx_def Let_def
            split: option.splits if_splits prod.splits write_outcome.splits)
    then show "a = None \<and> sms_calls st' = sms_calls st \<and>
      last_alert_epoch_data st' = last_alert_epoch_data st \<and>
      last_alert_ts_iso st' = last_alert_ts_iso st \<and>
      last_write_ts_iso st' = last_write_ts_iso st"
      by simp
  qed
qed

theorem store_failure_skips_alert_witness:
  "compute_and_store_if_ready default_env False True
      (initial_state\<lparr>latest_dht_t := Some (Fin 30), latest_dht_h := Some (Fin 40),
         latest_dht_ts := Some 1704067200, latest_wind_u := Some (Fin 20),
         latest_wind_ts := Some 1704067200\<rparr>) =
     (Fused (Fin (25 / 2)) (Fin 20) (rnd (8 / 5)) ''2024-01-01T00:00:00Z'' StoreRaised None,
      initial_state\<lparr>latest_dht_t := Some (Fin 30), latest_dht_h := Some (Fin 40),
         latest_dht_ts := Some 1704067200, latest_wind_u := Some (Fin 20),
         latest_wind_ts := Some 1704067200,
         influx_calls := [(''2024-01-01T00:00:00Z'', rnd (8 / 5), False)]\<rparr>) \<and>
   \<not> fle (rnd (8 / 5)) (F_THRESHOLD default_env)"
proof -
  define st20 where "st20 = initial_state\<lparr>latest_dht_t := Some (Fin 30), latest_dht_h := Some (Fin 40),
         latest_dht_ts := Some 1704067200, latest_wind_u := Some (Fin 20),
         latest_wind_ts := Some 1704067200\<rparr>"
  have ts: "strftime default_env (max 1704067200 1704067200) = ''2024-01-01T00:00:00Z''"
    by (simp add: default_env_def sample_strftime_def)
  have ueff: "(if fle (Fin 1) (Fin 20) then Fin 20 else Fin 1) = Fin 20"
    by simp
  have h: "latest_dht_t st20 = Some (Fin 30) \<and> latest_dht_h st20 = Some (Fin 40) \<and>
      latest_wind_u st20 = Some (Fin 20) \<and>
      latest_dht_ts st20 = Some 1704067200 \<and> latest_wind_ts st20 = Some 1704067200 \<and>
      seconds_between 1704067200 1704067200 \<le> SYNC_WINDOW_S default_env \<and>
      \<not> fle (Fin (25 / 2)) (Fin 0) \<and>
      last_write_ts_iso st20 \<noteq> Some ''2024-01-01T00:00:00Z''"
    by (simp add: st20_def initial_state_def seconds_between_def default_env_def)
  have thr: "\<not> fle (rnd (8 / 5)) (F_THRESHOLD default_env)"
    by (simp add: default_env_def rnd_1_6)
  note A = store_failure_skips_alert [of st20 "Fin 30" "Fin 40" "Fin 20" 1704067200 1704067200
      default_env True, THEN conjunct1, unfolded fmi_30_40 ueff ts, THEN mp, OF h]
  from A obtain f_val where f: "fdiv (Fin 20) (Fin (25 / 2)) = Some f_val"
    and c: "compute_and_store_if_ready default_env False True st20 =
      (Fused (Fin (25 / 2)) (Fin 20) f_val ''2024-01-01T00:00:00Z'' StoreRaised None,
       st20\<lparr>influx_calls := influx_calls st20 @ [(''2024-01-01T00:00:00Z'', f_val, False)]\<rparr>)"
    by (elim exE conjE)
  from f have fv: "f_val = rnd (8 / 5)"
    by (simp only: f_20 option.inject)
  from c thr show ?thesis
    unfolding fv st20_def by (simp add: initial_state_def)
qed

section \<open>Wind unit conversion\<close>

text \<open>
  C4 (as amended). For every numeric wind value, \<^verbatim>\<open>to_kmh\<close> returns the value unchanged
  when the declared unit, stripped, lowercased and with its spaces removed, is one of
  \<^verbatim>\<open>km/h\<close>, \<^verbatim>\<open>kmh\<close>, \<^verbatim>\<open>kph\<close>, and the value times 3.6 when it is one of \<^verbatim>\<open>m/s\<close>, \<^verbatim>\<open>ms\<close>,
  \<^verbatim>\<open>mps\<close>. A declared unit that is not recognized is treated as m/s: the value times 3.6,
  whatever the configured default unit. Only an absent (or empty) unit takes the
  configured default unit: unchanged when the default is a km/h spelling, times 3.6
  otherwise. The product is the float product with the literal \<^verbatim>\<open>3.6\<close>.
\<close>

theorem to_kmh_conversion:
  "(unit = Some s \<and> s \<noteq> [] \<longrightarrow>
      (normalize_unit s \<in> set [''km/h'', ''kmh'', ''kph''] \<longrightarrow>
         to_kmh cfg (Num u) unit = Some u) \<and>
      (normalize_unit s \<in> set [''m/s'', ''ms'', ''mps''] \<longrightarrow>
         to_kmh cfg (Num u) unit = Some (fmul u (rnd (18 / 5)))) \<and>
      (normalize_unit s \<notin> set [''km/h'', ''kmh'', ''kph'', ''m/s'', ''ms'', ''mps''] \<longrightarrow>
         to_kmh cfg (Num u) unit = Some (fmul u (rnd (18 / 5))))) \<and>
   (unit = None \<or> unit = Some [] \<longrightarrow>
      (normalize_unit (DEFAULT_WIND_INPUT_UNIT cfg) \<in> set [''km/h'', ''kmh'', ''kph''] \<longrightarrow>
         to_kmh cfg (Num u) unit = Some u) \<and>
      (normalize_unit (DEFAULT_WIND_INPUT_UNIT cfg) \<notin> set [''km/h'', ''kmh'', ''kph''] \<longrightarrow>
         to_kmh cfg (Num u) unit = Some (fmul u (rnd (18 / 5)))))"
  by (auto simp: to_kmh_def unit_norm_of_def Let_def)

text \<open>
  C4 as stated fails: with the default unit \<^verbatim>\<open>km/h\<close>, a reading of 10 with the
  unrecognized unit \<^verbatim>\<open>knots\<close> is returned as 36, not unchanged.
\<close>

theorem to_kmh_unknown_unit_counterexample:
  "to_kmh (default_env\<lparr>DEFAULT_WIND_INPUT_UNIT := ''km/h''\<rparr>) (Num (Fin 10)) (Some ''knots'') =
     Some (Fin 36) \<and>
   to_kmh (default_env\<lparr>DEFAULT_WIND_INPUT_UNIT := ''km/h''\<rparr>) (Num (Fin 10)) (Some ''knots'') \<noteq>
     Some (Fin 10)"
  by (simp add: to_kmh_def unit_norm_of_def normalize_unit_def py_strip_def py_lower_def
        py_lower_char_def py_remove_spaces_def py_isspace_def default_env_def fmul_10_3_6)

theorem to_kmh_conversion_witness:
  "to_kmh default_env (Num (Fin 18)) (Some '' Km / H '') = Some (Fin 18) \<and>
   to_kmh default_env (Num (Fin 5)) (Some ''MPS'') = Some (Fin 18) \<and>
   to_kmh (default_env\<lparr>DEFAULT_WIND_INPUT_UNIT := ''km/h''\<rparr>) (Num (Fin 10)) (Some ''knots'') =
     Some (Fin 36) \<and>
   to_kmh (default_env\<lparr>DEFAULT_WIND_INPUT_UNIT := ''km/h''\<rparr>) (Num (Fin 10)) None =
     Some (Fin 10) \<and>
   to_kmh default_env (Num (Fin 10)) None = Some (Fin 36)"
proof -
  have n1: "normalize_unit '' Km / H '' = ''km/h''"
    and n2: "normalize_unit ''knots'' = ''knots''"
    and n3: "normalize_unit ''MPS'' = ''mps''"
    and n4: "normalize_unit ''km/h'' = ''km/h''"
    and n5: "normalize_unit ''m/s'' = ''m/s''"
    by code_simp+
  have a: "to_kmh default_env (Num (Fin 18)) (Some '' Km / H '') = Some (Fin 18)"
    using to_kmh_conversion [of "Some '' Km / H ''" "'' Km / H ''" default_env "Fin 18"] n1
    by simp
  have b: "to_kmh default_env (Num (Fin 5)) (Some ''MPS'') = Some (Fin 18)"
    using to_kmh_conversion [of "Some ''MPS''" "''MPS''" default_env "Fin 5"] n3
    by (simp add: fmul_5_3_6)
  have c: "to_kmh (default_env\<lparr>DEFAULT_WIND_INPUT_UNIT := ''km/h''\<rparr>) (Num (Fin 10))
      (Some ''knots'') = Some (Fin 36)"
    using to_kmh_conversion [of "Some ''knots''" "''knots''"
        "default_env\<lparr>DEFAULT_WIND_INPUT_UNIT := ''km/h''\<rparr>" "Fin 10"] n2
    by (simp add: fmul_10_3_6)
  have d: "to_kmh (default_env\<lparr>DEFAULT_WIND_INPUT_UNIT := ''km/h''\<rparr>) (Num (Fin 10)) None =
      Some (Fin 10)"
    using to_kmh_conversion [of None "[]"
        "default_env\<lparr>DEFAULT_WIND_INPUT_UNIT := ''km/h''\<rparr>" "Fin 10"] n4
    by simp
  have e: "to_kmh default_env (Num (Fin 10)) None = Some (Fin 36)"
    using to_kmh_conversion [of None "[]" default_env "Fin 10"] n5
    by (simp add: default_env_def fmul_10_3_6)
  from a b c d e show ?thesis by (intro conjI)
qed

section \<open>Modbus frames: CRC and single-bit errors\<close>

text \<open>
  The CRC loop is linear over exclusive or: one shift step, eight of them, and the loop
  over the bytes all commute with \<open>XOR\<close>. A flipped bit therefore changes the CRC by the
  CRC (from initial value 0) of the one-bit error pattern, which is never 0.
\<close>

lemma crc_shift_alt: "crc_shift c = drop_bit 1 c XOR (if odd c then 0xA001 else 0)"
  by (simp add: crc_shift_def and_one_eq odd_iff_mod_2_eq_one)

lemma crc_shift_xor: "crc_shift (x XOR y) = crc_shift x XOR crc_shift y"
  by (cases "odd x"; cases "odd y")
    (simp_all add: crc_shift_alt drop_bit_xor even_xor_iff ac_simps)

lemma crc_bits_xor: "crc_bits n (x XOR y) = crc_bits n x XOR crc_bits n y"
  by (induction n arbitrary: x y) (simp_all add: crc_shift_xor)

lemma crc_bytes_xor:
  "length bs = length es \<Longrightarrow>
   crc_bytes (c XOR d) (map2 (XOR) bs es) = crc_bytes c bs XOR crc_bytes d es"
proof (induction bs es arbitrary: c d rule: list_induct2)
  case Nil
  show ?case by simp
next
  case (Cons b bs e es)
  have "(c XOR d) XOR uint (b XOR e) = (c XOR uint b) XOR (d XOR uint e)"
    by (simp add: uint_xor ac_simps)
  then have "crc_bits 8 ((c XOR d) XOR uint (b XOR e)) =
      crc_bits 8 (c XOR uint b) XOR crc_bits 8 (d XOR uint e)"
    by (simp only: crc_bits_xor)
  then show ?case
    using Cons.IH [of "crc_bits 8 (c XOR uint b)" "crc_bits 8 (d XOR uint e)"]
    by (simp only: list.map zip_Cons_Cons prod.case crc_bytes.simps)
qed

lemma flip_bit_at_xor:
  "flip_bit_at i bs = map2 (XOR) bs (flip_bit_at i (replicate (length bs) 0))"
proof (cases "i div 8 < length bs")
  case True
  then show ?thesis
    by (intro nth_equalityI) (auto simp: flip_bit_at_def nth_list_update)
next
  case False
  then show ?thesis
    by (intro nth_equalityI) (auto simp: flip_bit_at_def list_update_beyond)
qed

lemma single_bit_error_crc:
  "\<forall>i \<in> set [0..<48]. crc_bytes 0 (flip_bit_at i (replicate 6 0)) AND 0xFFFF \<noteq> 0"
  by code_simp

lemma modbus_crc16_flip:
  assumes "length pdu = 6" and "i < 48"
  shows "modbus_crc16 (flip_bit_at i pdu) \<noteq> modbus_crc16 pdu"
proof -
  have "crc_bytes (0xFFFF XOR 0) (map2 (XOR) pdu (flip_bit_at i (replicate (length pdu) 0)))
      = crc_bytes 0xFFFF pdu XOR crc_bytes 0 (flip_bit_at i (replicate (length pdu) 0))"
    by (rule crc_bytes_xor) (simp add: flip_bit_at_def)
  then have "modbus_crc16 (flip_bit_at i pdu) =
      modbus_crc16 pdu XOR (crc_bytes 0 (flip_bit_at i (replicate 6 0)) AND 0xFFFF)"
    using assms(1)
    by (simp add: modbus_crc16_def flip_bit_at_xor [of i pdu] bit.conj_xor_distrib2)
  moreover have "crc_bytes 0 (flip_bit_at i (replicate 6 0)) AND 0xFFFF \<noteq> 0"
    using single_bit_error_crc assms(2) by simp
  ultimately show ?thesis
    by (metis bit.xor_self xor.left_commute xor_self_eq xor.right_neutral)
qed

lemma modbus_crc16_range: "0 \<le> modbus_crc16 data \<and> modbus_crc16 data \<le> 65535"
  by (simp add: modbus_crc16_def AND_upper2)

lemma pack_unpack_H_le:
  assumes "0 \<le> v" and "v \<le> 65535"
  shows "\<exists>lo hi. pack_H_le v = Some [lo, hi] \<and> unpack_H_le [lo, hi] = Some v"
proof -
  have "v div 256 < 256" using assms by simp
  moreover have "0 \<le> v div 256" using assms by simp
  ultimately have "uint (word_of_int (v div 256) :: byte) = v div 256"
    by (simp add: uint_word_of_int)
  moreover have "uint (word_of_int (v mod 256) :: byte) = v mod 256"
    by (simp add: uint_word_of_int)
  ultimately show ?thesis
    using assms by (simp add: pack_H_le_def)
qed

lemma flip_byte_neq: "k < 8 \<Longrightarrow> (b :: byte) XOR push_bit k 1 \<noteq> b"
proof
  assume k: "k < 8" and "b XOR push_bit k 1 = b"
  then have "b XOR (b XOR push_bit k 1) = b XOR b" by simp
  then have "push_bit k (1 :: byte) = 0"
    by (simp add: xor.assoc [symmetric])
  with k show False
    by (simp add: push_bit_eq_mult exp_eq_zero_iff)
qed

lemma unpack_H_le_flip:
  assumes "j < 16"
  shows "unpack_H_le (flip_bit_at j [lo, hi]) \<noteq> unpack_H_le [lo, hi]"
proof (cases "j div 8 = 0")
  case True
  have "lo XOR push_bit (j mod 8) 1 \<noteq> lo"
    by (rule flip_byte_neq) simp
  then show ?thesis
    using True by (simp add: flip_bit_at_def word_uint_eq_iff)
next
  case False
  with assms have one: "j div 8 = 1" by linarith
  have "hi XOR push_bit (j mod 8) 1 \<noteq> hi"
    by (rule flip_byte_neq) simp
  then show ?thesis
    using one by (simp add: flip_bit_at_def word_uint_eq_iff)
qed

lemma flip_bit_at_append1:
  "i div 8 < length xs \<Longrightarrow> flip_bit_at i (xs @ ys) = flip_bit_at i xs @ ys"
  by (simp add: flip_bit_at_def list_update_append1 nth_append)

lemma flip_bit_at_append2:
  assumes "length xs \<le> i div 8"
  shows "flip_bit_at i (xs @ ys) = xs @ flip_bit_at (i - 8 * length xs) ys"
proof -
  have "8 * length xs \<le> i" using assms by linarith
  then obtain d where i: "i = 8 * length xs + d"
    using le_Suc_ex by blast
  have "(i - 8 * length xs) div 8 = i div 8 - length xs"
    and "(i - 8 * length xs) mod 8 = i mod 8"
    by (simp_all add: i)
  then show ?thesis
    using assms by (simp add: flip_bit_at_def list_update_append nth_append)
qed

lemma length_flip_bit_at: "length (flip_bit_at i frame) = length frame"
  by (simp add: flip_bit_at_def)

lemma parse_crc_mismatch:
  assumes "5 \<le> length resp" and "unpack_H_le (last2 resp) = Some crc_recv"
    and "modbus_crc16 (but_last2 resp) \<noteq> crc_recv"
  shows "parse_read_holding_registers resp slave reg_count =
           Inl (CrcInvalid (modbus_crc16 (but_last2 resp)) crc_recv)"
  using assms by (simp add: parse_read_holding_registers_def Let_def)

lemma flipped_frame_rejected:
  assumes six: "length pdu = 6" and crc: "unpack_H_le [lo, hi] = Some (modbus_crc16 pdu)"
    and i: "i < 64"
  shows "\<exists>calc recv. calc \<noteq> recv \<and>
           parse_read_holding_registers (flip_bit_at i (pdu @ [lo, hi])) slave reg_count =
             Inl (CrcInvalid calc recv)"
proof (cases "i < 48")
  case True
  then have fl: "flip_bit_at i (pdu @ [lo, hi]) = flip_bit_at i pdu @ [lo, hi]"
    using six by (simp add: flip_bit_at_append1)
  have len: "length (flip_bit_at i pdu) = 6"
    using six by (simp add: length_flip_bit_at)
  have neq: "modbus_crc16 (flip_bit_at i pdu) \<noteq> modbus_crc16 pdu"
    by (rule modbus_crc16_flip [OF six True])
  have "parse_read_holding_registers (flip_bit_at i pdu @ [lo, hi]) slave reg_count =
      Inl (CrcInvalid (modbus_crc16 (but_last2 (flip_bit_at i pdu @ [lo, hi])))
        (modbus_crc16 pdu))"
    using len crc neq
    by (intro parse_crc_mismatch) (simp_all add: last2_def but_last2_def)
  with neq len show ?thesis
    by (auto simp: fl but_last2_def)
next
  case False
  then have fl: "flip_bit_at i (pdu @ [lo, hi]) = pdu @ flip_bit_at (i - 48) [lo, hi]"
    using six by (simp add: flip_bit_at_append2)
  have j: "i - 48 < 16" using i False by simp
  have "length (flip_bit_at (i - 48) [lo, hi]) = Suc (Suc 0)"
    by (simp add: length_flip_bit_at)
  then obtain lo' hi' where t: "flip_bit_at (i - 48) [lo, hi] = [lo', hi']"
    by (auto simp: length_Suc_conv)
  from unpack_H_le_flip [OF j, of lo hi] crc
  have neq: "modbus_crc16 pdu \<noteq> uint lo' + 256 * uint hi'"
    by (auto simp: t)
  have "parse_read_holding_registers (pdu @ [lo', hi']) slave reg_count =
      Inl (CrcInvalid (modbus_crc16 (but_last2 (pdu @ [lo', hi'])))
        (uint lo' + 256 * uint hi'))"
    using six neq
    by (intro parse_crc_mismatch) (simp_all add: last2_def but_last2_def)
  with neq six show ?thesis
    by (auto simp: fl t but_last2_def)
qed

lemma build_frame:
  assumes "0 \<le> slave \<and> slave \<le> 255" and "0 \<le> start_addr \<and> start_addr \<le> 65535"
    and "0 \<le> reg_count \<and> reg_count \<le> 65535"
  shows "build_read_holding_registers slave start_addr reg_count =
     Inr ([word_of_int slave, 0x03,
           word_of_int (start_addr div 256), word_of_int (start_addr mod 256),
           word_of_int (reg_count div 256), word_of_int (reg_count mod 256)] @
          [word_of_int (modbus_crc16 [word_of_int slave, 0x03,
             word_of_int (start_addr div 256), word_of_int (start_addr mod 256),
             word_of_int (reg_count div 256), word_of_int (reg_count mod 256)] mod 256),
           word_of_int (modbus_crc16 [word_of_int slave, 0x03,
             word_of_int (start_addr div 256), word_of_int (start_addr mod 256),
             word_of_int (reg_count div 256), word_of_int (reg_count mod 256)] div 256)])"
proof -
  have a: "pack_B slave = Some [word_of_int slave]"
    using assms(1) by (simp add: pack_B_def)
  have b: "pack_H_be start_addr =
      Some [word_of_int (start_addr div 256), word_of_int (start_addr mod 256)]"
    using assms(2) by (simp add: pack_H_be_def)
  have c: "pack_H_be reg_count =
      Some [word_of_int (reg_count div 256), word_of_int (reg_count mod 256)]"
    using assms(3) by (simp add: pack_H_be_def)
  have t: "pack_H_le (modbus_crc16 pdu) =
      Some [word_of_int (modbus_crc16 pdu mod 256), word_of_int (modbus_crc16 pdu div 256)]"
    for pdu
    using modbus_crc16_range [of pdu] by (simp add: pack_H_le_def)
  show ?thesis
    by (simp only: build_read_holding_registers_def a b c t Let_def
          prod.case option.case append.simps)
qed

lemma unpack_pack_crc:
  "unpack_H_le [word_of_int (modbus_crc16 pdu mod 256), word_of_int (modbus_crc16 pdu div 256)]
     = Some (modbus_crc16 pdu)"
proof -
  from pack_unpack_H_le [of "modbus_crc16 pdu"] modbus_crc16_range [of pdu]
  show ?thesis by (auto simp: pack_H_le_def)
qed

lemma parse_request_frame:
  assumes "0 \<le> slave \<and> slave \<le> 255" and "0 \<le> start_addr \<and> start_addr \<le> 65535"
    and "0 \<le> reg_count \<and> reg_count \<le> 65535"
  shows "parse_read_holding_registers (frame_layout slave start_addr reg_count) slave reg_count =
     (if start_addr div 256 \<noteq> reg_count * 2
      then Inl (ByteCountMismatch (start_addr div 256) (reg_count * 2))
      else if reg_count = 0 then Inr []
      else if reg_count = 1 then Inr [256 * (start_addr mod 256)]
      else Inl StructError)"
proof -
  define pdu :: "byte list" where "pdu = [word_of_int slave, 0x03,
     word_of_int (start_addr div 256), word_of_int (start_addr mod 256),
     word_of_int (reg_count div 256), word_of_int (reg_count mod 256)]"
  define lo :: byte where "lo = word_of_int (modbus_crc16 pdu mod 256)"
  define hi :: byte where "hi = word_of_int (modbus_crc16 pdu div 256)"
  have fr: "frame_layout slave start_addr reg_count = pdu @ [lo, hi]"
    by (simp add: frame_layout_def Let_def pdu_def lo_def hi_def)
  have crc: "unpack_H_le [lo, hi] = Some (modbus_crc16 pdu)"
    unfolding lo_def hi_def by (rule unpack_pack_crc)
  have slices: "but_last2 (pdu @ [lo, hi]) = pdu" "last2 (pdu @ [lo, hi]) = [lo, hi]"
    "length (pdu @ [lo, hi]) = 8"
    by (simp_all add: but_last2_def last2_def pdu_def)
  have u0: "uint (pdu ! 0) = slave"
    using assms(1) by (simp add: pdu_def uint_word_of_int)
  have u1: "uint (pdu ! Suc 0) = 3"
    by (simp add: pdu_def)
  have six: "length pdu = 6"
    by (simp add: pdu_def)
  have crc': "modbus_crc16 pdu = uint lo + 256 * uint hi"
    using crc by simp
  have "start_addr div 256 < 256" using assms(2) by linarith
  moreover have "0 \<le> start_addr div 256" using assms(2) by linarith
  ultimately have u2: "uint (pdu ! 2) = start_addr div 256"
    by (simp add: pdu_def uint_word_of_int)
  have u3: "drop 3 pdu = [word_of_int (start_addr mod 256), word_of_int (reg_count div 256),
     word_of_int (reg_count mod 256)]"
    by (simp add: pdu_def)
  have u4: "uint (word_of_int (start_addr mod 256) :: byte) = start_addr mod 256"
    by (simp add: uint_word_of_int)
  have p: "parse_read_holding_registers (pdu @ [lo, hi]) slave reg_count =
     (if start_addr div 256 \<noteq> reg_count * 2
      then Inl (ByteCountMismatch (start_addr div 256) (reg_count * 2))
      else (let data = take (nat (start_addr div 256)) (drop 3 pdu)
            in if int (length data) \<noteq> 2 * reg_count then Inl StructError
               else Inr (unpack_H_be_all data)))"
    by (simp add: parse_read_holding_registers_def slices crc' [symmetric] six u0 u1 u2 Let_def)
  have q: "parse_read_holding_registers (frame_layout slave start_addr reg_count) slave reg_count =
     (if start_addr div 256 \<noteq> reg_count * 2
      then Inl (ByteCountMismatch (start_addr div 256) (reg_count * 2))
      else (let data = take (nat (start_addr div 256)) (drop 3 pdu)
            in if int (length data) \<noteq> 2 * reg_count then Inl StructError
               else Inr (unpack_H_be_all data)))"
    by (simp only: fr p)
  consider "start_addr div 256 \<noteq> reg_count * 2"
    | "start_addr div 256 = reg_count * 2" "reg_count = 0"
    | "start_addr div 256 = reg_count * 2" "reg_count = 1"
    | "start_addr div 256 = reg_count * 2" "2 \<le> reg_count"
    using assms(3) by linarith
  then show ?thesis
    unfolding q
  proof cases
    case 1
    then show "(if start_addr div 256 \<noteq> reg_count * 2
      then Inl (ByteCountMismatch (start_addr div 256) (reg_count * 2))
      else (let data = take (nat (start_addr div 256)) (drop 3 pdu)
            in if int (length data) \<noteq> 2 * reg_count then Inl StructError
               else Inr (unpack_H_be_all data))) =
      (if start_addr div 256 \<noteq> reg_count * 2
       then Inl (ByteCountMismatch (start_addr div 256) (reg_count * 2))
       else if reg_count = 0 then Inr []
       else if reg_count = 1 then Inr [256 * (start_addr mod 256)]
       else Inl StructError)"
      by simp
  next
    case 2
    then show "(if start_addr div 256 \<noteq> reg_count * 2
      then Inl (ByteCountMismatch (start_addr div 256) (reg_count * 2))
      else (let data = take (nat (start_addr div 256)) (drop 3 pdu)
            in if int (length data) \<noteq> 2 * reg_count then Inl StructError
               else Inr (unpack_H_be_all data))) =
      (if start_addr div 256 \<noteq> reg_count * 2
       then Inl (ByteCountMismatch (start_addr div 256) (reg_count * 2))
       else if reg_count = 0 then Inr []
       else if reg_count = 1 then Inr [256 * (start_addr mod 256)]
       else Inl StructError)"
      by simp
  next
    case 3
    have t2: "take 2 (drop 3 pdu) = [word_of_int (start_addr mod 256), 0]"
      using 3 by (simp add: u3)
    show "(if start_addr div 256 \<noteq> reg_count * 2
      then Inl (ByteCountMismatch (start_addr div 256) (reg_count * 2))
      else (let data = take (nat (start_addr div 256)) (drop 3 pdu)
            in if int (length data) \<noteq> 2 * reg_count then Inl StructError
               else Inr (unpack_H_be_all data))) =
      (if start_addr div 256 \<noteq> reg_count * 2
       then Inl (ByteCountMismatch (start_addr div 256) (reg_count * 2))
       else if reg_count = 0 then Inr []
       else if reg_count = 1 then Inr [256 * (start_addr mod 256)]
       else Inl StructError)"
      using 3 by (simp add: t2 six u4 Let_def)
  next
    case 4
    then have "3 < nat (start_addr div 256)" by simp
    then have "take (nat (start_addr div 256)) (drop 3 pdu) = drop 3 pdu"
      by (simp add: u3)
    then show "(if start_addr div 256 \<noteq> reg_count * 2
      then Inl (ByteCountMismatch (start_addr div 256) (reg_count * 2))
      else (let data = take (nat (start_addr div 256)) (drop 3 pdu)
            in if int (length data) \<noteq> 2 * reg_count then Inl StructError
               else Inr (unpack_H_be_all data))) =
      (if start_addr div 256 \<noteq> reg_count * 2
       then Inl (ByteCountMismatch (start_addr div 256) (reg_count * 2))
       else if reg_count = 0 then Inr []
       else if reg_count = 1 then Inr [256 * (start_addr mod 256)]
       else Inl StructError)"
      using 4 by (simp add: u3 Let_def)
  qed
qed

text \<open>
  C7 (as amended). For every \<open>slave\<close> in 0..255 and \<open>start\<close>, \<open>count\<close> in 0..65535 the request
  frame is \<^verbatim>\<open>[slave][0x03][start BE][count BE][CRC16 LE]\<close>, the CRC (initial value 0xFFFF,
  shifted right, polynomial 0xA001) taken over the six preceding bytes; flipping any
  single bit of a generated frame makes the parser raise the CRC \<^verbatim>\<open>ValueError\<close>, whatever
  slave and count are expected. The parser reads response frames, so a generated request
  does not round-trip through it: it passes the length, CRC, slave and function checks and
  is rejected for its byte count unless the high byte of \<open>start\<close> equals \<open>2 * count\<close>.
\<close>

theorem request_frame_encoding_and_bit_flips:
  assumes "0 \<le> slave \<and> slave \<le> 255" and "0 \<le> start_addr \<and> start_addr \<le> 65535"
    and "0 \<le> reg_count \<and> reg_count \<le> 65535"
  shows
    "build_read_holding_registers slave start_addr reg_count =
       Inr (frame_layout slave start_addr reg_count) \<and>
     (\<forall>i < 64. \<forall>slave' reg_count'. \<exists>calc recv. calc \<noteq> recv \<and>
        parse_read_holding_registers
          (flip_bit_at i (frame_layout slave start_addr reg_count)) slave' reg_count' =
        Inl (CrcInvalid calc recv)) \<and>
     parse_read_holding_registers (frame_layout slave start_addr reg_count) slave reg_count =
       (if start_addr div 256 \<noteq> reg_count * 2
        then Inl (ByteCountMismatch (start_addr div 256) (reg_count * 2))
        else if reg_count = 0 then Inr []
        else if reg_count = 1 then Inr [256 * (start_addr mod 256)]
        else Inl StructError)"
proof (intro conjI allI impI)
  show "build_read_holding_registers slave start_addr reg_count =
       Inr (frame_layout slave start_addr reg_count)"
    using build_frame [OF assms] by (simp add: frame_layout_def Let_def)
next
  fix i :: nat and slave' reg_count' :: int
  assume i: "i < 64"
  define pdu :: "byte list" where "pdu = [word_of_int slave, 0x03,
     word_of_int (start_addr div 256), word_of_int (start_addr mod 256),
     word_of_int (reg_count div 256), word_of_int (reg_count mod 256)]"
  have fr: "frame_layout slave start_addr reg_count =
     pdu @ [word_of_int (modbus_crc16 pdu mod 256), word_of_int (modbus_crc16 pdu div 256)]"
    by (simp add: frame_layout_def Let_def pdu_def)
  have six: "length pdu = 6" by (simp add: pdu_def)
  show "\<exists>calc recv. calc \<noteq> recv \<and>
        parse_read_holding_registers
          (flip_bit_at i (frame_layout slave start_addr reg_count)) slave' reg_count' =
        Inl (CrcInvalid calc recv)"
    unfolding fr
    by (rule flipped_frame_rejected [OF six unpack_pack_crc i])
next
  show "parse_read_holding_registers (frame_layout slave start_addr reg_count) slave reg_count =
       (if start_addr div 256 \<noteq> reg_count * 2
        then Inl (ByteCountMismatch (start_addr div 256) (reg_count * 2))
        else if reg_count = 0 then Inr []
        else if reg_count = 1 then Inr [256 * (start_addr mod 256)]
        else Inl StructError)"
    by (rule parse_request_frame [OF assms])
qed

text \<open>
  C7 as stated fails: the request for one register at address 0 of slave 2 (the request
  the anemometer driver sends) is rejected by the parser.
\<close>

theorem request_frame_roundtrip_counterexample:
  "build_read_holding_registers 2 0 1 = Inr [2, 3, 0, 0, 0, 1, 0x84, 0x39] \<and>
   parse_read_holding_registers [2, 3, 0, 0, 0, 1, 0x84, 0x39] 2 1 =
     Inl (ByteCountMismatch 0 2)"
  by code_simp

theorem request_frame_encoding_and_bit_flips_witness:
  "build_read_holding_registers 2 0 1 = Inr (frame_layout 2 0 1) \<and>
   (\<exists>calc recv. calc \<noteq> recv \<and>
      parse_read_holding_registers (flip_bit_at 13 (frame_layout 2 0 1)) 2 1 =
        Inl (CrcInvalid calc recv)) \<and>
   parse_read_holding_registers (frame_layout 2 0 1) 2 1 = Inl (ByteCountMismatch 0 2)"
proof -
  have v: "(0::int) \<le> 2 \<and> (2::int) \<le> 255" "(0::int) \<le> 0 \<and> (0::int) \<le> 65535"
    "(0::int) \<le> 1 \<and> (1::int) \<le> 65535"
    by simp_all
  have i: "(13::nat) < 64" by simp
  from request_frame_encoding_and_bit_flips [OF v]
  have a: "build_read_holding_registers 2 0 1 = Inr (frame_layout 2 0 1)"
    and b: "\<forall>i<64. \<forall>slave' reg_count'. \<exists>calc recv. calc \<noteq> recv \<and>
        parse_read_holding_registers (flip_bit_at i (frame_layout 2 0 1)) slave' reg_count' =
        Inl (CrcInvalid calc recv)"
    and c: "parse_read_holding_registers (frame_layout 2 0 1) 2 1 =
       (if (0::int) div 256 \<noteq> 1 * 2
        then Inl (ByteCountMismatch (0 div 256) (1 * 2))
        else if (1::int) = 0 then Inr []
        else if (1::int) = 1 then Inr [256 * (0 mod 256)]
        else Inl StructError)"
    by blast+
  from b i have "\<exists>calc recv. calc \<noteq> recv \<and>
      parse_read_holding_registers (flip_bit_at 13 (frame_layout 2 0 1)) 2 1 =
        Inl (CrcInvalid calc recv)"
    by blast
  moreover from c have "parse_read_holding_registers (frame_layout 2 0 1) 2 1 =
      Inl (ByteCountMismatch 0 2)"
    by simp
  ultimately show ?thesis using a by blast
qed

section \<open>Modbus response validation\<close>

text \<open>
  The parser on a response of at least five bytes, written over \<^verbatim>\<open>resp\<close> itself: the
  chain of checks in the order of the source, ending in the unpacking of the data bytes.
\<close>

lemma last2_two:
  assumes "2 \<le> length resp"
  shows "last2 resp = [resp ! (length resp - 2), resp ! (length resp - 1)]"
proof -
  have a: "length resp - 2 < length resp" and b: "length resp - 1 < length resp"
    and c: "Suc (length resp - 2) = length resp - 1" and d: "Suc (length resp - 1) = length resp"
    using assms by simp_all
  have "drop (length resp - 2) resp = resp ! (length resp - 2) # drop (length resp - 1) resp"
    using Cons_nth_drop_Suc [OF a] by (simp add: c)
  also have "drop (length resp - 1) resp = resp ! (length resp - 1) # drop (length resp) resp"
    using Cons_nth_drop_Suc [OF b] by (simp add: d)
  finally show ?thesis by (simp add: last2_def)
qed

lemma length_unpack_H_be_all: "length (unpack_H_be_all data) = length data div 2"
  by (induction data rule: unpack_H_be_all.induct) simp_all

lemma parse_unfold:
  assumes len: "5 \<le> length resp"
  shows "parse_read_holding_registers resp slave reg_count =
     (let crc_recv = uint (resp ! (length resp - 2)) + 256 * uint (resp ! (length resp - 1));
          crc_calc = modbus_crc16 (but_last2 resp)
      in if crc_calc \<noteq> crc_recv then Inl (CrcInvalid crc_calc crc_recv)
         else if uint (resp ! 0) \<noteq> slave then Inl (UnexpectedSlave (uint (resp ! 0)))
         else if uint (resp ! 1) \<noteq> 3 then
           (if uint (resp ! 1) AND 0x80 \<noteq> 0
            then Inl (ModbusException (uint (resp ! 1)) (uint (resp ! 2)))
            else Inl (UnexpectedFunc (uint (resp ! 1))))
         else if uint (resp ! 2) \<noteq> reg_count * 2
           then Inl (ByteCountMismatch (uint (resp ! 2)) (reg_count * 2))
         else if int (length resp) < 5 + 2 * reg_count then Inl StructError
         else Inr (unpack_H_be_all (take (nat (2 * reg_count)) (drop 3 resp))))"
proof -
  have l2: "last2 resp = [resp ! (length resp - 2), resp ! (length resp - 1)]"
    using len by (intro last2_two) simp
  have p0: "but_last2 resp ! 0 = resp ! 0" and p1: "but_last2 resp ! 1 = resp ! 1"
    and p2: "but_last2 resp ! 2 = resp ! 2" and pl: "length (but_last2 resp) = length resp - 2"
    using len by (simp_all add: but_last2_def)
  have d3: "drop 3 (but_last2 resp) = take (length resp - 5) (drop 3 resp)"
    by (simp add: but_last2_def drop_take)
  have short: "int (length (take (nat (reg_count * 2)) (drop 3 (but_last2 resp)))) \<noteq> 2 * reg_count"
    if "int (length resp) < 5 + 2 * reg_count"
    using that len by (simp add: d3)
  have long: "take (nat (reg_count * 2)) (drop 3 (but_last2 resp)) =
      take (nat (2 * reg_count)) (drop 3 resp) \<and>
      int (length (take (nat (2 * reg_count)) (drop 3 resp))) = 2 * reg_count"
    if "5 + 2 * reg_count \<le> int (length resp)" and "0 \<le> reg_count"
  proof -
    have "nat (2 * reg_count) \<le> length resp - 5" using that by linarith
    then show ?thesis using that
      by (simp add: d3 min_absorb1 mult.commute)
  qed
  have nonneg: "0 \<le> reg_count" if "uint (resp ! 2) = reg_count * 2"
    using that uint_ge_0 [of "resp ! 2"] by linarith
  have c1: "\<not> length resp < 5" and c2: "length (but_last2 resp) > 2"
    using len by (simp_all add: pl)
  have base: "parse_read_holding_registers resp slave reg_count =
     (if modbus_crc16 (but_last2 resp) \<noteq>
           uint (resp ! (length resp - 2)) + 256 * uint (resp ! (length resp - 1))
      then Inl (CrcInvalid (modbus_crc16 (but_last2 resp))
             (uint (resp ! (length resp - 2)) + 256 * uint (resp ! (length resp - 1))))
      else if uint (resp ! 0) \<noteq> slave then Inl (UnexpectedSlave (uint (resp ! 0)))
      else if uint (resp ! 1) \<noteq> 3 then
        (if uint (resp ! 1) AND 0x80 \<noteq> 0
         then Inl (ModbusException (uint (resp ! 1)) (uint (resp ! 2)))
         else Inl (UnexpectedFunc (uint (resp ! 1))))
      else if uint (resp ! 2) \<noteq> reg_count * 2
        then Inl (ByteCountMismatch (uint (resp ! 2)) (reg_count * 2))
      else if int (length (take (nat (uint (resp ! 2))) (drop 3 (but_last2 resp))))
                \<noteq> 2 * reg_count then Inl StructError
      else Inr (unpack_H_be_all (take (nat (uint (resp ! 2))) (drop 3 (but_last2 resp)))))"
    by (simp only: parse_read_holding_registers_def l2 unpack_H_le.simps option.case
          Let_def c1 c2 if_False if_True p0 p1 p2)
  show ?thesis
  proof (cases "uint (resp ! 2) = reg_count * 2")
    case False
    then show ?thesis by (simp only: base Let_def if_True if_False simp_thms)
  next
    case True
    show ?thesis
    proof (cases "int (length resp) < 5 + 2 * reg_count")
      case short_resp: True
      show ?thesis
        using short [OF short_resp]
        by (simp only: base Let_def True short_resp if_True if_False not_True_eq_False simp_thms
              not_False_eq_True)
    next
      case False
      then have "5 + 2 * reg_count \<le> int (length resp)" by simp
      from long [OF this nonneg [OF True]] show ?thesis
        by (simp only: base Let_def True False if_True if_False not_True_eq_False simp_thms
              not_False_eq_True)
    qed
  qed
qed

lemma crc_ok_iff:
  "2 \<le> length resp \<Longrightarrow>
   crc_ok resp \<longleftrightarrow>
     modbus_crc16 (but_last2 resp) =
       uint (resp ! (length resp - 2)) + 256 * uint (resp ! (length resp - 1))"
  by (auto simp: crc_ok_def last2_two)

lemma parse_Inr_D:
  assumes "parse_read_holding_registers resp slave reg_count = Inr vals"
  shows "5 + 2 * reg_count \<le> int (length resp) \<and> crc_ok resp \<and> uint (resp ! 0) = slave \<and>
      uint (resp ! 1) = 0x03 \<and> uint (resp ! 2) = reg_count * 2 \<and>
      int (length vals) = reg_count"
proof -
  have len: "5 \<le> length resp"
    using assms by (cases "length resp < 5") (simp_all add: parse_read_holding_registers_def)
  have nonneg: "0 \<le> reg_count" if "uint (resp ! 2) = reg_count * 2"
    using that uint_ge_0 [of "resp ! 2"] by linarith
  from assms len nonneg show ?thesis
    unfolding parse_unfold [OF len] Let_def
    by (auto simp: crc_ok_iff length_unpack_H_be_all split: if_splits)
qed

text \<open>
  C8 (as amended). Response validation proceeds in this order and raises at the first
  failing check, for every input and expected slave and count: a minimum length of 5 bytes
  (whatever the count); the CRC16 over all bytes before the trailing two equals their
  little-endian value; the first byte equals the slave address; the second byte equals
  0x03, where a function byte with the high bit set is reported as a Modbus exception whose
  code is the following byte; the declared byte count equals \<open>2 * count\<close>. A response that
  passes these checks but is shorter than \<open>5 + 2 * count\<close> bytes raises \<^verbatim>\<open>struct.error\<close>
  when its data is unpacked. Register values are returned only when every check holds and
  the response has at least \<open>5 + 2 * count\<close> bytes; then there are \<open>count\<close> of them.
\<close>

theorem parse_validation_order:
  "(length resp < 5 \<longrightarrow>
      parse_read_holding_registers resp slave reg_count = Inl (ShortResponse (length resp))) \<and>
   (5 \<le> length resp \<and> \<not> crc_ok resp \<longrightarrow>
      (\<exists>calc recv. calc \<noteq> recv \<and>
         parse_read_holding_registers resp slave reg_count = Inl (CrcInvalid calc recv))) \<and>
   (5 \<le> length resp \<and> crc_ok resp \<and> uint (resp ! 0) \<noteq> slave \<longrightarrow>
      parse_read_holding_registers resp slave reg_count =
        Inl (UnexpectedSlave (uint (resp ! 0)))) \<and>
   (5 \<le> length resp \<and> crc_ok resp \<and> uint (resp ! 0) = slave \<and>
    uint (resp ! 1) \<noteq> 0x03 \<and> uint (resp ! 1) AND 0x80 \<noteq> 0 \<longrightarrow>
      parse_read_holding_registers resp slave reg_count =
        Inl (ModbusException (uint (resp ! 1)) (uint (resp ! 2)))) \<and>
   (5 \<le> length resp \<and> crc_ok resp \<and> uint (resp ! 0) = slave \<and>
    uint (resp ! 1) \<noteq> 0x03 \<and> uint (resp ! 1) AND 0x80 = 0 \<longrightarrow>
      parse_read_holding_registers resp slave reg_count =
        Inl (UnexpectedFunc (uint (resp ! 1)))) \<and>
   (5 \<le> length resp \<and> crc_ok resp \<and> uint (resp ! 0) = slave \<and>
    uint (resp ! 1) = 0x03 \<and> uint (resp ! 2) \<noteq> reg_count * 2 \<longrightarrow>
      parse_read_holding_registers resp slave reg_count =
        Inl (ByteCountMismatch (uint (resp ! 2)) (reg_count * 2))) \<and>
   (5 \<le> length resp \<and> crc_ok resp \<and> uint (resp ! 0) = slave \<and>
    uint (resp ! 1) = 0x03 \<and> uint (resp ! 2) = reg_count * 2 \<and>
    int (length resp) < 5 + 2 * reg_count \<longrightarrow>
      parse_read_holding_registers resp slave reg_count = Inl StructError) \<and>
   (5 \<le> length resp \<and> crc_ok resp \<and> uint (resp ! 0) = slave \<and>
    uint (resp ! 1) = 0x03 \<and> uint (resp ! 2) = reg_count * 2 \<and>
    5 + 2 * reg_count \<le> int (length resp) \<longrightarrow>
      parse_read_holding_registers resp slave reg_count =
        Inr (unpack_H_be_all (take (nat (2 * reg_count)) (drop 3 resp)))) \<and>
   (\<forall>vals. parse_read_holding_registers resp slave reg_count = Inr vals \<longrightarrow>
      5 + 2 * reg_count \<le> int (length resp) \<and> crc_ok resp \<and> uint (resp ! 0) = slave \<and>
      uint (resp ! 1) = 0x03 \<and> uint (resp ! 2) = reg_count * 2 \<and>
      int (length vals) = reg_count)"
  apply (intro conjI impI allI; (elim conjE)?)
  subgoal by (simp add: parse_read_holding_registers_def)
  subgoal by (simp add: parse_unfold crc_ok_iff Let_def)
  subgoal by (simp add: parse_unfold crc_ok_iff Let_def)
  subgoal by (simp add: parse_unfold crc_ok_iff Let_def)
  subgoal by (simp add: parse_unfold crc_ok_iff Let_def)
  subgoal by (simp add: parse_unfold crc_ok_iff Let_def)
  subgoal by (simp add: parse_unfold crc_ok_iff Let_def)
  subgoal by (simp add: parse_unfold crc_ok_iff Let_def)
  subgoal for vals using parse_Inr_D [of resp slave reg_count vals] by blast
  subgoal for vals using parse_Inr_D [of resp slave reg_count vals] by blast
  subgoal for vals using parse_Inr_D [of resp slave reg_count vals] by blast
  subgoal for vals using parse_Inr_D [of resp slave reg_count vals] by blast
  subgoal for vals using parse_Inr_D [of resp slave reg_count vals] by blast
  subgoal for vals using parse_Inr_D [of resp slave reg_count vals] by blast
  done

text \<open>
  C8 as stated fails: the length check does not depend on the count. A five-byte response
  with a valid CRC, expected with one register (minimum 7), passes all five checks and
  fails in \<^verbatim>\<open>struct.unpack\<close> with \<^verbatim>\<open>struct.error\<close>, which is not a \<^verbatim>\<open>ValueError\<close>; a six-byte
  response with a wrong CRC is rejected for its CRC, not for its length.
\<close>

theorem parse_min_length_counterexample:
  "int (length [2, 3, 2, 0x51, 0x31 :: byte]) < 5 + 2 * 1 \<and>
   parse_read_holding_registers [2, 3, 2, 0x51, 0x31] 2 1 = Inl StructError \<and>
   \<not> is_ValueError StructError \<and>
   int (length [2, 3, 2, 0, 0, 0 :: byte]) < 5 + 2 * 1 \<and>
   parse_read_holding_registers [2, 3, 2, 0, 0, 0] 2 1 = Inl (CrcInvalid 0xFCF0 0)"
  by code_simp

theorem parse_validation_order_witness:
  "parse_read_holding_registers [2, 3, 2, 0, 0x12, 0x7C, 0x49] 2 1 = Inr [18] \<and>
   parse_read_holding_registers [2, 3] 2 1 = Inl (ShortResponse 2) \<and>
   parse_read_holding_registers [2, 0x83, 2, 0x30, 0xF1] 2 1 = Inl (ModbusException 0x83 2)"
proof -
  have ok: "5 \<le> length [2, 3, 2, 0, 0x12, 0x7C, 0x49 :: byte] \<and>
      crc_ok [2, 3, 2, 0, 0x12, 0x7C, 0x49] \<and>
      uint ([2, 3, 2, 0, 0x12, 0x7C, 0x49 :: byte] ! 0) = 2 \<and>
      uint ([2, 3, 2, 0, 0x12, 0x7C, 0x49 :: byte] ! 1) = 0x03 \<and>
      uint ([2, 3, 2, 0, 0x12, 0x7C, 0x49 :: byte] ! 2) = 1 * 2 \<and>
      5 + 2 * 1 \<le> int (length [2, 3, 2, 0, 0x12, 0x7C, 0x49 :: byte])"
    by code_simp
  have short: "length [2, 3 :: byte] < 5"
    by simp
  have exc: "5 \<le> length [2, 0x83, 2, 0x30, 0xF1 :: byte] \<and>
      crc_ok [2, 0x83, 2, 0x30, 0xF1] \<and>
      uint ([2, 0x83, 2, 0x30, 0xF1 :: byte] ! 0) = 2 \<and>
      uint ([2, 0x83, 2, 0x30, 0xF1 :: byte] ! 1) \<noteq> 0x03 \<and>
      uint ([2, 0x83, 2, 0x30, 0xF1 :: byte] ! 1) AND 0x80 \<noteq> 0"
    by code_simp
  have a: "parse_read_holding_registers [2, 3, 2, 0, 0x12, 0x7C, 0x49] 2 1 =
      Inr (unpack_H_be_all (take (nat (2 * 1)) (drop 3 [2, 3, 2, 0, 0x12, 0x7C, 0x49])))"
    using ok parse_validation_order [of "[2, 3, 2, 0, 0x12, 0x7C, 0x49]" 2 1] by blast
  have b: "parse_read_holding_registers [2, 3] 2 1 = Inl (ShortResponse (length [2, 3 :: byte]))"
    using short parse_validation_order [of "[2, 3]" 2 1] by blast
  have c: "parse_read_holding_registers [2, 0x83, 2, 0x30, 0xF1] 2 1 =
      Inl (ModbusException (uint ([2, 0x83, 2, 0x30, 0xF1 :: byte] ! 1))
             (uint ([2, 0x83, 2, 0x30, 0xF1 :: byte] ! 2)))"
    using exc parse_validation_order [of "[2, 0x83, 2, 0x30, 0xF1]" 2 1] by blast
  from a b c show ?thesis by simp
qed

end
